theory Spec2Isabelle
  imports Main "HOL-Library.AList" "HOL-Library.Sublist"
begin

section \<open>Strings and numbers of the source language\<close>

text \<open>
  A JavaScript string is a sequence of UTF-16 code units. It is modelled as a
  \<^typ>\<open>string\<close>, one \<^typ>\<open>char\<close> per code unit, so the model has an alphabet of
  256 code units: the code units \<open>0..255\<close>, with one exchange. The sources use
  the dash \<open>U+2014\<close> in a pattern and in a text, so the character \<open>0x97\<close> stands
  for that dash and not for the control character \<open>U+0097\<close>; both are neither
  white space nor word characters nor letters with a case. \<open>length\<close> is
  \<open>.length\<close>, \<open>take n\<close> is \<open>.substring(0, n)\<close> and \<open>@\<close> is concatenation.
  Timestamps and durations are integral milliseconds and are modelled as
  \<^typ>\<open>int\<close>.
\<close>

definition em_dash :: string where
  "em_dash = [CHR 0x97]"

definition digit_char :: "nat \<Rightarrow> char" where
  "digit_char d = char_of (of_char CHR ''0'' + d)"

function show_nat :: "nat \<Rightarrow> string" where
  "show_nat n = (if n < 10 then [digit_char n] else show_nat (n div 10) @ [digit_char (n mod 10)])"
  by pat_completeness auto
termination
  by (relation "measure (\<lambda>n. n)") auto

declare show_nat.simps [simp del]

definition show_int :: "int \<Rightarrow> string" where
  "show_int i = (if i < 0 then CHR ''-'' # show_nat (nat (- i)) else show_nat (nat i))"

section \<open>Session manager: data model\<close>

datatype meta_value = MStr string | MNum int | MBool bool

type_synonym metadata = "(string \<times> meta_value) list"

record event =
  id_evt :: string
  timestamp :: int
  role :: string
  content :: string
  action :: string
  category :: string
  metadata :: metadata

text \<open>An occurrence of a topic: \<open>{content, timestamp, relevance}\<close> in the source.\<close>

record topic_entry =
  content_tag :: string
  timestamp_tag :: int
  relevance :: int

text \<open>
  \<open>topicTags\<close> is a JavaScript \<open>Map\<close>: keys are unique and iteration follows
  insertion order, hence an association list.
\<close>

type_synonym topic_tags = "(string \<times> topic_entry list) list"

record session_manager =
  sessionMemory :: "event list"
  compressionEnabled :: bool
  maxSize :: nat
  compressionThreshold :: nat
  maxDurationMinutes :: int
  activeSkill :: string
  sessionStartTime :: "int option"
  sessionActive :: bool
  topicTags :: topic_tags
  sessionTimer :: "nat option"

text \<open>
  What the methods read from and do to the JavaScript runtime: the \<open>n\<close>-th call of
  \<open>Date.now()\<close> returns \<open>clock n\<close>, the \<open>n\<close>-th call of
  \<open>Math.random().toString(36).substr(2, 6)\<close> returns \<open>randomSuffix n\<close>,
  \<open>pendingTimers\<close> are the handles of the timeouts that are armed,
  \<open>requests\<close> are the model names of the calls of
  \<open>client.chat.completions.create\<close> made so far, one entry per network call,
  and \<open>sleeps\<close> are the arguments of the calls of \<open>delay\<close> awaited so far.
\<close>

record runtime =
  clock :: "nat \<Rightarrow> int"
  clockReads :: nat
  randomSuffix :: "nat \<Rightarrow> string"
  randomReads :: nat
  pendingTimers :: "nat list"
  requests :: "string list"
  sleeps :: "nat list"

definition date_now :: "runtime \<Rightarrow> int \<times> runtime" where
  "date_now rt = (clock rt (clockReads rt), rt\<lparr>clockReads := Suc (clockReads rt)\<rparr>)"

definition math_random :: "runtime \<Rightarrow> string \<times> runtime" where
  "math_random rt = (randomSuffix rt (randomReads rt), rt\<lparr>randomReads := Suc (randomReads rt)\<rparr>)"

definition clearTimeout :: "nat \<Rightarrow> runtime \<Rightarrow> runtime" where
  "clearTimeout h rt = rt\<lparr>pendingTimers := removeAll h (pendingTimers rt)\<rparr>"

section \<open>Eviction\<close>

definition keep_event :: "int \<Rightarrow> event \<Rightarrow> bool" where
  "keep_event cutoffTime e =
     (if category e = ''system'' \<and> action e = ''skill_init'' then True
      else timestamp e \<ge> cutoffTime)"

text \<open>
  The loop over \<open>topicTags.entries()\<close>: every occurrence list is filtered, a key
  whose list becomes empty is deleted, any other key is set to its filtered list
  (\<open>Map.set\<close> on an existing key keeps its position).
\<close>

fun evict_topics :: "int \<Rightarrow> topic_tags \<Rightarrow> topic_tags" where
  "evict_topics cutoffTime [] = []"
| "evict_topics cutoffTime ((topic, entries) # rest) =
     (let filtered = filter (\<lambda>e. timestamp_tag e \<ge> cutoffTime) entries
      in if length filtered = 0 then evict_topics cutoffTime rest
         else (topic, filtered) # evict_topics cutoffTime rest)"

definition cutoff_time :: "session_manager \<Rightarrow> int \<Rightarrow> int" where
  "cutoff_time sm now = now - (maxDurationMinutes sm * 60 * 1000)"

definition evictExpiredEvents :: "runtime \<Rightarrow> session_manager \<Rightarrow> runtime \<times> session_manager" where
  "evictExpiredEvents rt sm =
     (let (now, rt1) = date_now rt;
          cutoffTime = cutoff_time sm now
      in (rt1, sm\<lparr>sessionMemory := filter (keep_event cutoffTime) (sessionMemory sm),
                  topicTags := evict_topics cutoffTime (topicTags sm)\<rparr>))"

section \<open>Consolidation and maintenance\<close>

definition merge_event :: "event \<Rightarrow> event" where
  "merge_event current =
     current\<lparr>content := content current @ '' ('' @ [CHR 0xD7] @ ''2)'',
             metadata := AList.update ''consolidated'' (MBool True) (metadata current)\<rparr>"

text \<open>
  The \<open>while (i < length)\<close> loop of \<open>consolidateSimilarEvents\<close>: the head of the
  list is \<open>sessionMemory[i]\<close>, the second element is \<open>sessionMemory[i + 1]\<close>.
\<close>

fun consolidate :: "event list \<Rightarrow> event list" where
  "consolidate [] = []"
| "consolidate [current] = [current]"
| "consolidate (current # next # rest) =
     (if category current = ''system'' \<and> category next = ''system'' \<and> action next = action current
      then merge_event current # consolidate rest
      else current # consolidate (next # rest))"

definition consolidateSimilarEvents :: "session_manager \<Rightarrow> session_manager" where
  "consolidateSimilarEvents sm = sm\<lparr>sessionMemory := consolidate (sessionMemory sm)\<rparr>"

definition performMaintenance :: "runtime \<Rightarrow> session_manager \<Rightarrow> runtime \<times> session_manager" where
  "performMaintenance rt sm =
     (let (rt1, sm1) = evictExpiredEvents rt sm;
          sm2 = consolidateSimilarEvents sm1
      in if length (sessionMemory sm2) > maxSize sm2
         then (let excess = length (sessionMemory sm2) - maxSize sm2
               in (rt1, sm2\<lparr>sessionMemory := drop excess (sessionMemory sm2)\<rparr>))
         else (rt1, sm2))"

definition performMaintenanceIfNeeded :: "runtime \<Rightarrow> session_manager \<Rightarrow> runtime \<times> session_manager" where
  "performMaintenanceIfNeeded rt sm =
     (if length (sessionMemory sm) > compressionThreshold sm
      then performMaintenance rt sm
      else (rt, sm))"


section \<open>Appending events\<close>

text \<open>
  Truthiness of a string-valued expression that may be \<open>null\<close> or \<open>undefined\<close>
  (\<open>None\<close>): the empty string is falsy as well.
\<close>

fun truthy :: "string option \<Rightarrow> bool" where
  "truthy None = False"
| "truthy (Some s) = (s \<noteq> [])"

definition code_unit :: "char \<Rightarrow> nat" where
  "code_unit c = of_char c"

text \<open>
  \<open>String.prototype.toLowerCase\<close> on the code units of the model's alphabet,
  and the white space and line terminators that \<open>trim()\<close> removes and \<open>\s\<close>
  matches there.
\<close>

definition toLowerCase_char :: "char \<Rightarrow> char" where
  "toLowerCase_char c =
     (let n = code_unit c
      in if (65 \<le> n \<and> n \<le> 90) \<or> (192 \<le> n \<and> n \<le> 222 \<and> n \<noteq> 215) then char_of (n + 32) else c)"

definition toLowerCase :: "string \<Rightarrow> string" where
  "toLowerCase s = map toLowerCase_char s"

definition is_space :: "char \<Rightarrow> bool" where
  "is_space c = (code_unit c \<in> {9, 10, 11, 12, 13, 32, 160})"

definition trim :: "string \<Rightarrow> string" where
  "trim s = rev (dropWhile is_space (rev (dropWhile is_space s)))"

definition inferActionFromRole :: "string \<Rightarrow> string" where
  "inferActionFromRole r =
     (if r = ''user'' then ''user_message''
      else if r = ''model'' then ''model_response''
      else if r = ''system'' then ''system_event''
      else ''unknown'')"

definition categories :: "(string \<times> string) list" where
  "categories =
     [(''voice_input'', ''interaction''), (''chat_input'', ''interaction''),
      (''model_response'', ''ai''), (''copilot_whisper'', ''ai''),
      (''ocr_capture'', ''capture''), (''screenshot'', ''capture''),
      (''skill_init'', ''system''), (''skill_change'', ''system''),
      (''session_start'', ''system''), (''session_end'', ''system'')]"

text \<open>
  The argument is \<open>action || role\<close>. The lookup is in the table above; the names
  that a JavaScript object literal inherits from \<open>Object.prototype\<close> are not
  used as actions.
\<close>

definition categorizeAction :: "string \<Rightarrow> string" where
  "categorizeAction a =
     (if a = [] then ''general''
      else case map_of categories a of Some c \<Rightarrow> c | None \<Rightarrow> ''general'')"

definition generateEventId :: "runtime \<Rightarrow> string \<times> runtime" where
  "generateEventId rt =
     (let (now, rt1) = date_now rt;
          (suffix, rt2) = math_random rt1
      in (''evt_'' @ show_int now @ ''_'' @ suffix, rt2))"

text \<open>\<open>Math.round(d / 60000)\<close> for an integer \<open>d\<close> is \<open>floor (d / 60000 + 1/2)\<close>.\<close>

definition getElapsedMinutes :: "runtime \<Rightarrow> session_manager \<Rightarrow> int \<times> runtime" where
  "getElapsedMinutes rt sm =
     (case sessionStartTime sm of
        None \<Rightarrow> (0, rt)
      | Some start \<Rightarrow>
          if start = 0 then (0, rt)
          else (let (now, rt1) = date_now rt in ((now - start + 30000) div 60000, rt1)))"

text \<open>Object spread \<open>{...target, ...source}\<close> on metadata bags.\<close>

definition spread :: "metadata \<Rightarrow> metadata \<Rightarrow> metadata" where
  "spread target source = fold (\<lambda>(k, v) m. AList.update k v m) source target"

definition tag_topic :: "string \<Rightarrow> int \<Rightarrow> string \<Rightarrow> topic_tags \<Rightarrow> topic_tags" where
  "tag_topic contentText ts matched tags =
     (let topic = trim (toLowerCase matched);
          tags1 = (if map_of tags topic = None then tags @ [(topic, [])] else tags);
          entry = \<lparr>content_tag = take 200 contentText, timestamp_tag = ts, relevance = 1\<rparr>
      in AList.map_entry topic (\<lambda>entries. entries @ [entry]) tags1)"

text \<open>
  \<open>extractAndTagTopics\<close>. The battery of sixteen vocabulary patterns is the
  parameter \<open>topicMatches\<close>: for a content string it gives the matches of
  \<open>content.match(pattern)\<close> of all patterns, in the order in which the two
  nested loops visit them.
\<close>

definition extractAndTagTopics ::
  "(string \<Rightarrow> string list) \<Rightarrow> string \<Rightarrow> int \<Rightarrow> session_manager \<Rightarrow> session_manager" where
  "extractAndTagTopics topicMatches contentText ts sm =
     (if contentText = [] then sm
      else sm\<lparr>topicTags := fold (tag_topic contentText ts) (topicMatches contentText) (topicTags sm)\<rparr>)"

definition addConversationEvent ::
  "(string \<Rightarrow> string list) \<Rightarrow> string \<Rightarrow> string \<Rightarrow> string option \<Rightarrow> metadata \<Rightarrow>
   runtime \<Rightarrow> session_manager \<Rightarrow> event \<times> runtime \<times> session_manager" where
  "addConversationEvent topicMatches roleArg contentArg actionArg metadataArg rt sm =
     (let (newId, rt1) = generateEventId rt;
          (ts, rt2) = date_now rt1;
          (elapsed, rt3) = getElapsedMinutes rt2 sm;
          ev = \<lparr>id_evt = newId,
                timestamp = ts,
                role = roleArg,
                content = contentArg,
                action = (if truthy actionArg then the actionArg else inferActionFromRole roleArg),
                category = categorizeAction (if truthy actionArg then the actionArg else roleArg),
                metadata = AList.update ''sessionElapsed'' (MNum elapsed)
                             (AList.update ''skill'' (MStr (activeSkill sm)) metadataArg)\<rparr>;
          sm1 = sm\<lparr>sessionMemory := sessionMemory sm @ [ev]\<rparr>;
          sm2 = extractAndTagTopics topicMatches contentArg ts sm1;
          (rt4, sm3) = evictExpiredEvents rt3 sm2;
          (rt5, sm4) = performMaintenanceIfNeeded rt4 sm3
      in (ev, rt5, sm4))"

definition addOCREvent ::
  "(string \<Rightarrow> string list) \<Rightarrow> string \<Rightarrow> metadata \<Rightarrow>
   runtime \<Rightarrow> session_manager \<Rightarrow> event \<times> runtime \<times> session_manager" where
  "addOCREvent topicMatches extractedText metadataArg rt sm =
     (let safeText = (if length extractedText > 4000 then take 4000 extractedText @ ''...''
                      else extractedText)
      in addConversationEvent topicMatches ''system'' (''Screenshot captured: '' @ safeText)
           (Some ''ocr_capture'')
           (spread [(''fullTextLength'', MNum (int (length extractedText)))] metadataArg)
           rt sm)"

section \<open>Skill prompts and clearing\<close>

text \<open>
  \<open>promptLoader.getSkillPrompt\<close> belongs to a module that is not part of the
  sources at hand, so it is a parameter: for a skill name it throws
  (\<open>LoadThrows\<close>) or returns a prompt, where \<open>Loaded []\<close> stands for every
  falsy result.
\<close>

datatype load_result = LoadThrows | Loaded string

definition default_skills :: "string list" where
  "default_skills = [''system-design'', ''technical-screening'', ''dsa'']"

definition skill_init_event :: "string \<Rightarrow> string \<Rightarrow> string \<Rightarrow> int \<Rightarrow> event" where
  "skill_init_event skill prompt newId ts =
     \<lparr>id_evt = newId, timestamp = ts, role = ''system'',
      content = ''Skill prompt loaded: '' @ skill,
      action = ''skill_init'', category = ''system'',
      metadata = [(''skill'', MStr skill), (''promptLength'', MNum (int (length prompt)))]\<rparr>"

fun init_skills ::
  "(string \<Rightarrow> load_result) \<Rightarrow> string list \<Rightarrow> runtime \<Rightarrow> session_manager \<Rightarrow> runtime \<times> session_manager" where
  "init_skills getSkillPrompt [] rt sm = (rt, sm)"
| "init_skills getSkillPrompt (skill # skills) rt sm =
     (case getSkillPrompt skill of
        LoadThrows \<Rightarrow> init_skills getSkillPrompt skills rt sm
      | Loaded prompt \<Rightarrow>
          if prompt = [] then init_skills getSkillPrompt skills rt sm
          else (let (newId, rt1) = generateEventId rt;
                    (ts, rt2) = date_now rt1
                in init_skills getSkillPrompt skills rt2
                     (sm\<lparr>sessionMemory := sessionMemory sm @ [skill_init_event skill prompt newId ts]\<rparr>)))"

text \<open>
  \<open>availableModes\<close> is the value of \<open>config.get('interview.availableModes')\<close>,
  \<open>None\<close> when the key is absent. In \<open>clear\<close> the timer handle is an object of
  the runtime, so \<open>if (this.sessionTimer)\<close> holds exactly when a handle is stored.
\<close>

definition initializeWithSkillPrompts ::
  "(string \<Rightarrow> load_result) \<Rightarrow> string list option \<Rightarrow> runtime \<Rightarrow> session_manager \<Rightarrow> runtime \<times> session_manager" where
  "initializeWithSkillPrompts getSkillPrompt availableModes rt sm =
     (let skills = (case availableModes of Some l \<Rightarrow> l | None \<Rightarrow> default_skills)
      in init_skills getSkillPrompt skills rt sm)"

definition clear ::
  "(string \<Rightarrow> load_result) \<Rightarrow> string list option \<Rightarrow> runtime \<Rightarrow> session_manager \<Rightarrow> runtime \<times> session_manager" where
  "clear getSkillPrompt availableModes rt sm =
     (let sm1 = sm\<lparr>sessionMemory := [], topicTags := [], sessionStartTime := None,
                   sessionActive := False\<rparr>;
          (rt1, sm2) = (case sessionTimer sm1 of
                          Some h \<Rightarrow> (clearTimeout h rt, sm1\<lparr>sessionTimer := None\<rparr>)
                        | None \<Rightarrow> (rt, sm1))
      in initializeWithSkillPrompts getSkillPrompt availableModes rt1 sm2)"

section \<open>Follow-up context\<close>

text \<open>
  \<open>content.replace(/^Screenshot captured:\s*/i, '')\<close>: the pattern is anchored at
  the start, its letters match in either case, and \<open>\s*\<close> takes all the white
  space that follows.
\<close>

definition strip_ocr_prefix :: "string \<Rightarrow> string" where
  "strip_ocr_prefix s =
     (if map toLowerCase_char (take 20 s) = ''screenshot captured:''
      then dropWhile is_space (drop 20 s) else s)"

record qa_pair =
  question :: string
  answer :: string
  source :: "string option"

text \<open>
  The state of the pairing loop is \<open>(pairs, currentQuestion, questionSource)\<close>;
  \<open>None\<close> is \<open>null\<close>.
\<close>

fun pair_loop ::
  "event list \<Rightarrow> qa_pair list \<Rightarrow> string option \<Rightarrow> string option \<Rightarrow> qa_pair list" where
  "pair_loop [] pairs currentQuestion questionSource = pairs"
| "pair_loop (ev # evs) pairs currentQuestion questionSource =
     (if action ev = ''ocr_capture''
      then pair_loop evs pairs (Some (strip_ocr_prefix (content ev))) (Some ''screen'')
      else if role ev = ''user''
      then pair_loop evs pairs (Some (content ev)) (Some ''voice/chat'')
      else if role ev = ''model'' \<and> truthy currentQuestion
      then pair_loop evs
             (pairs @ [\<lparr>question = the currentQuestion, answer = content ev,
                        source = questionSource\<rparr>])
             None None
      else pair_loop evs pairs currentQuestion questionSource)"

definition relevant_event :: "event \<Rightarrow> bool" where
  "relevant_event e =
     ((role e = ''system'' \<and> action e = ''ocr_capture'') \<or> role e = ''user'' \<or> role e = ''model'')"

text \<open>\<open>Array.prototype.slice(start)\<close> for an integer \<open>start\<close>.\<close>

definition slice_from :: "int \<Rightarrow> 'a list \<Rightarrow> 'a list" where
  "slice_from start xs =
     (if start < 0 then drop (nat (int (length xs) + start)) xs else drop (nat start) xs)"

definition render_pair :: "nat \<Rightarrow> qa_pair \<Rightarrow> string" where
  "render_pair i pair =
     [CHR 0x0A] @ ''--- Turn '' @ show_nat (i + 1) @ '' ---'' @ [CHR 0x0A]
     @ (if source pair = Some ''screen'' then ''SCREEN CONTENT'' else ''USER MESSAGE'')
     @ '':'' @ [CHR 0x0A] @ take 1500 (question pair) @ [CHR 0x0A, CHR 0x0A]
     @ ''YOUR PREVIOUS ANSWER:'' @ [CHR 0x0A] @ take 2000 (answer pair) @ [CHR 0x0A]"

fun render_pairs :: "nat \<Rightarrow> qa_pair list \<Rightarrow> string \<Rightarrow> string" where
  "render_pairs i [] context = context"
| "render_pairs i (pair # rest) context = render_pairs (Suc i) rest (context @ render_pair i pair)"

definition context_header :: string where
  "context_header = ''=== PREVIOUS CONVERSATION CONTEXT ==='' @ [CHR 0x0A]"

definition context_footer :: string where
  "context_footer = [CHR 0x0A] @ ''=== END PREVIOUS CONTEXT ==='' @ [CHR 0x0A]"

definition getFollowUpContext :: "session_manager \<Rightarrow> int \<Rightarrow> string" where
  "getFollowUpContext sm maxPairs =
     (let relevantEvents = filter relevant_event (sessionMemory sm)
      in if length relevantEvents = 0 then []
         else (let pairs = pair_loop relevantEvents [] None None
               in if length pairs = 0 then []
                  else (let recentPairs = slice_from (- maxPairs) pairs
                        in render_pairs 0 recentPairs context_header @ context_footer)))"

text \<open>
  The pairing of the follow-up context in the words of its description, for
  comparison with the loop: among the question and answer events, a pair is a
  question with a non-empty text directly followed by a model event. A question
  is an event with action \<open>ocr_capture\<close>, whose text is its content without the
  prefix, or a user event, whose text is its content.
\<close>

definition is_question :: "event \<Rightarrow> bool" where
  "is_question e = (action e = ''ocr_capture'' \<or> role e = ''user'')"

definition question_text :: "event \<Rightarrow> string" where
  "question_text e = (if action e = ''ocr_capture'' then strip_ocr_prefix (content e) else content e)"

definition question_source :: "event \<Rightarrow> string" where
  "question_source e = (if action e = ''ocr_capture'' then ''screen'' else ''voice/chat'')"

definition spec_follow_up_pairs :: "event list \<Rightarrow> qa_pair list" where
  "spec_follow_up_pairs evs =
     map (\<lambda>(q, a). \<lparr>question = question_text q, answer = content a,
                     source = Some (question_source q)\<rparr>)
       (filter (\<lambda>(q, a). is_question q \<and> question_text q \<noteq> [] \<and> \<not> is_question a \<and> role a = ''model'')
          (zip evs (tl evs)))"

section \<open>Regular expressions\<close>

text \<open>
  The regular expressions of the source are kept as data and run by a
  backtracking matcher with the priorities of the JavaScript one: the left
  alternative first, a greedy quantifier longest first, a lazy one shortest
  first, and the first complete match wins. A position is the index, the
  character before it and the input that remains.
\<close>

datatype citem = Ch char | Space | NonSpace

datatype cclass = OneOf "citem list" | NoneOf "citem list" | Dot

datatype regex =
    Eps
  | Atom cclass
  | Rep cclass nat "nat option" bool
  | Cat regex regex
  | Alt regex regex
  | Bol
  | Eol
  | WordB
  | Group nat regex
  | Ahead regex

type_synonym pos = "nat \<times> char option \<times> string"

type_synonym captures = "nat \<Rightarrow> string option"

text \<open>
  Under the \<open>i\<close> flag two code units of the alphabet match when they are equal
  up to case, which is equality after \<^const>\<open>toLowerCase_char\<close>.
\<close>

fun in_item :: "bool \<Rightarrow> citem \<Rightarrow> char \<Rightarrow> bool" where
  "in_item ic (Ch x) c = (if ic then toLowerCase_char c = toLowerCase_char x else c = x)"
| "in_item ic Space c = is_space c"
| "in_item ic NonSpace c = (\<not> is_space c)"

fun in_class :: "bool \<Rightarrow> cclass \<Rightarrow> char \<Rightarrow> bool" where
  "in_class ic (OneOf items) c = list_ex (\<lambda>it. in_item ic it c) items"
| "in_class ic (NoneOf items) c = (\<not> list_ex (\<lambda>it. in_item ic it c) items)"
| "in_class ic Dot c = (code_unit c \<noteq> 10 \<and> code_unit c \<noteq> 13)"

definition is_word :: "char \<Rightarrow> bool" where
  "is_word c =
     (let n = code_unit c
      in (48 \<le> n \<and> n \<le> 57) \<or> (65 \<le> n \<and> n \<le> 90) \<or> n = 95 \<or> (97 \<le> n \<and> n \<le> 122))"

fun at_boundary :: "pos \<Rightarrow> bool" where
  "at_boundary (i, prev, rest) =
     ((case prev of None \<Rightarrow> False | Some c \<Rightarrow> is_word c)
      \<noteq> (case rest of [] \<Rightarrow> False | c # _ \<Rightarrow> is_word c))"

text \<open>
  A quantified character class \<open>c{mn,mx}\<close>; \<open>mx = None\<close> is no upper bound.
\<close>

fun rep_greedy ::
  "(char \<Rightarrow> bool) \<Rightarrow> nat \<Rightarrow> nat option \<Rightarrow> pos \<Rightarrow> (pos \<Rightarrow> 'r option) \<Rightarrow> 'r option" where
  "rep_greedy p mn mx (i, prev, []) k = (if mn = 0 then k (i, prev, []) else None)"
| "rep_greedy p mn mx (i, prev, c # cs) k =
     (if mx \<noteq> Some 0 \<and> p c
      then (case rep_greedy p (mn - 1) (map_option (\<lambda>m. m - 1) mx) (Suc i, Some c, cs) k of
              Some r \<Rightarrow> Some r
            | None \<Rightarrow> if mn = 0 then k (i, prev, c # cs) else None)
      else if mn = 0 then k (i, prev, c # cs) else None)"

fun rep_lazy ::
  "(char \<Rightarrow> bool) \<Rightarrow> nat \<Rightarrow> nat option \<Rightarrow> pos \<Rightarrow> (pos \<Rightarrow> 'r option) \<Rightarrow> 'r option" where
  "rep_lazy p mn mx (i, prev, []) k = (if mn = 0 then k (i, prev, []) else None)"
| "rep_lazy p mn mx (i, prev, c # cs) k =
     (case (if mn = 0 then k (i, prev, c # cs) else None) of
        Some r \<Rightarrow> Some r
      | None \<Rightarrow>
          if mx \<noteq> Some 0 \<and> p c
          then rep_lazy p (mn - 1) (map_option (\<lambda>m. m - 1) mx) (Suc i, Some c, cs) k
          else None)"

fun rmatch ::
  "bool \<Rightarrow> regex \<Rightarrow> pos \<Rightarrow> captures \<Rightarrow> (pos \<Rightarrow> captures \<Rightarrow> (pos \<times> captures) option)
   \<Rightarrow> (pos \<times> captures) option" where
  "rmatch ic Eps p caps k = k p caps"
| "rmatch ic (Atom cl) (i, prev, rest) caps k =
     (case rest of
        [] \<Rightarrow> None
      | c # cs \<Rightarrow> if in_class ic cl c then k (Suc i, Some c, cs) caps else None)"
| "rmatch ic (Rep cl mn mx greedy) p caps k =
     (if greedy then rep_greedy (in_class ic cl) mn mx p (\<lambda>p'. k p' caps)
      else rep_lazy (in_class ic cl) mn mx p (\<lambda>p'. k p' caps))"
| "rmatch ic (Cat r1 r2) p caps k = rmatch ic r1 p caps (\<lambda>p' caps'. rmatch ic r2 p' caps' k)"
| "rmatch ic (Alt r1 r2) p caps k =
     (case rmatch ic r1 p caps k of Some res \<Rightarrow> Some res | None \<Rightarrow> rmatch ic r2 p caps k)"
| "rmatch ic Bol (i, prev, rest) caps k = (if i = 0 then k (i, prev, rest) caps else None)"
| "rmatch ic Eol (i, prev, rest) caps k = (if rest = [] then k (i, prev, rest) caps else None)"
| "rmatch ic WordB p caps k = (if at_boundary p then k p caps else None)"
| "rmatch ic (Group n r) (i, prev, rest) caps k =
     rmatch ic r (i, prev, rest) caps
       (\<lambda>(j, prev', rest') caps'. k (j, prev', rest') (caps'(n \<mapsto> take (j - i) rest)))"
| "rmatch ic (Ahead r) p caps k =
     (case rmatch ic r p caps (\<lambda>p' caps'. Some (p', caps')) of
        Some (p', caps') \<Rightarrow> k p caps'
      | None \<Rightarrow> None)"

text \<open>The leftmost start position at which the expression matches.\<close>

fun search :: "bool \<Rightarrow> regex \<Rightarrow> pos \<Rightarrow> (pos \<times> captures) option" where
  "search ic r (i, prev, []) = rmatch ic r (i, prev, []) Map.empty (\<lambda>p' caps'. Some (p', caps'))"
| "search ic r (i, prev, c # cs) =
     (case rmatch ic r (i, prev, c # cs) Map.empty (\<lambda>p' caps'. Some (p', caps')) of
        Some res \<Rightarrow> Some res
      | None \<Rightarrow> search ic r (Suc i, Some c, cs))"

text \<open>\<open>regex.test(s)\<close> and the capture groups of \<open>s.match(regex)\<close> (no \<open>g\<close> flag).\<close>

definition regex_test :: "bool \<Rightarrow> regex \<Rightarrow> string \<Rightarrow> bool" where
  "regex_test ic r s = (search ic r (0, None, s) \<noteq> None)"

definition regex_match :: "bool \<Rightarrow> regex \<Rightarrow> string \<Rightarrow> captures option" where
  "regex_match ic r s = map_option snd (search ic r (0, None, s))"

definition chr :: "char \<Rightarrow> regex" where
  "chr c = Atom (OneOf [Ch c])"

definition lit :: "string \<Rightarrow> regex" where
  "lit s = foldr (\<lambda>c r. Cat (chr c) r) s Eps"

fun seq :: "regex list \<Rightarrow> regex" where
  "seq [] = Eps"
| "seq [r] = r"
| "seq (r # rs) = Cat r (seq rs)"

fun alts :: "regex list \<Rightarrow> regex" where
  "alts [] = Atom (OneOf [])"
| "alts [r] = r"
| "alts (r # rs) = Alt r (alts rs)"

definition opt :: "regex \<Rightarrow> regex" where
  "opt r = Alt r Eps"

definition many :: "cclass \<Rightarrow> regex" where
  "many cl = Rep cl 0 None True"

definition many1 :: "cclass \<Rightarrow> regex" where
  "many1 cl = Rep cl 1 None True"

definition words :: "string list \<Rightarrow> regex" where
  "words ws = alts (map lit ws)"

section \<open>Question classifier\<close>

definition codingPatterns :: "regex list" where
  "codingPatterns =
     [seq [WordB, words [''def '', ''function '', ''class '', ''int '', ''void '', ''public '',
                         ''private '', ''return '', ''if ('', ''for ('', ''while ('']],
      seq [WordB, words [''input'', ''output'', ''example'', ''constraint'', ''leetcode'',
                         ''hackerrank'', ''codechef'', ''codeforces'']],
      seq [WordB, words [''array'', ''string'', ''linked list'', ''binary tree'', ''graph'',
                         ''matrix'', ''sort'', ''search''], WordB],
      seq [WordB, words [''time complexity'', ''space complexity'', ''o(n)'', ''o(log'', ''o(1)'',
                         ''o(n^2'']],
      seq [WordB, words [''two pointer'', ''sliding window'', ''dynamic programming'',
                         ''backtracking'', ''bfs'', ''dfs'', ''greedy'']],
      words [''=>'', ''{}'', ''[]'', ''=='', ''!='', ''++'', ''--'', ''<<'', ''>>''],
      alts [lit ''```'',
            seq [WordB, lit ''int'', WordB, many Dot, lit ''(''],
            seq [WordB, lit ''void'', WordB, many Dot, lit ''('']]]"

definition designPatterns :: "regex list" where
  "designPatterns =
     [seq [WordB, words [''design'', ''architect'', ''system'', ''scalab'', ''microservice'',
                         ''monolith'', ''distributed'']],
      seq [WordB, words [''load balanc'', ''api gateway'', ''database'', ''cache'', ''cdn'',
                         ''message queue'', ''kafka'']],
      seq [WordB, words [''availability'', ''consistency'', ''partition'', ''replication'',
                         ''shard'']],
      seq [WordB, words [''user'', ''request'', ''server'', ''client'', ''service'', ''endpoint'',
                         ''traffic'', ''qps'', ''latency'']],
      seq [WordB, words [''storage'', ''bandwidth'', ''throughput'', ''bottleneck'',
                         ''single point of failure'']],
      seq [WordB, words [''rest'', ''graphql'', ''grpc'', ''websocket'', ''http'', ''tcp'']],
      seq [WordB, words [''redis'', ''memcached'', ''postgresql'', ''mongodb'', ''dynamodb'',
                         ''cassandra'', ''elasticsearch'']]]"

text \<open>The loop \<open>for (const pattern of patterns) if (pattern.test(text)) score++\<close>.\<close>

fun count_hits :: "regex list \<Rightarrow> string \<Rightarrow> nat \<Rightarrow> nat" where
  "count_hits [] text score = score"
| "count_hits (pattern # patterns) text score =
     count_hits patterns text (if regex_test False pattern text then score + 1 else score)"

definition detectQuestionType :: "string \<Rightarrow> string \<Rightarrow> string" where
  "detectQuestionType extractedText activeSkillArg =
     (if extractedText = [] then (if activeSkillArg = ''system-design'' then ''design'' else ''coding'')
      else (let text = toLowerCase extractedText;
                codingScore = count_hits codingPatterns text 0;
                designScore = count_hits designPatterns text 0;
                codingScore = (if activeSkillArg = ''dsa'' \<or> activeSkillArg = ''technical-screening''
                               then codingScore + 2 else codingScore);
                designScore = (if activeSkillArg = ''system-design'' then designScore + 2
                               else designScore)
            in if codingScore > designScore then ''coding'' else ''design''))"

section \<open>Response splitter\<close>

definition hashes :: "nat \<Rightarrow> regex" where
  "hashes mn = Rep (OneOf [Ch CHR ''#'']) mn (Some 3) True"

definition bold :: regex where
  "bold = opt (Rep (OneOf [Ch CHR ''*'']) 1 (Some 2) True)"

text \<open>
  The label and the rest of its line: optional heading marks, optional bold
  marks, \<open>Part\<close>, white space, the letter, optional bold marks, separators
  (white space, the dash \<open>U+2014\<close>, the hyphen and the colon), the
  rest of the line \<open>[^\r\n]*\<close> and the line break \<open>[\r\n]+\<close>.
\<close>

definition part_header :: "char \<Rightarrow> regex" where
  "part_header letter =
     seq [Alt Bol (chr (CHR 0x0A)),
          opt (seq [hashes 1, many (OneOf [Space])]),
          bold, lit ''Part'', many (OneOf [Space]), chr letter, bold,
          many (OneOf [Space, Ch (CHR 0x97), Ch CHR ''-'', Ch CHR '':'']),
          many (NoneOf [Ch (CHR 0x0D), Ch (CHR 0x0A)]),
          many1 (OneOf [Ch (CHR 0x0D), Ch (CHR 0x0A)])]"

definition body_lazy :: regex where
  "body_lazy = Group 1 (Rep (OneOf [Space, NonSpace]) 0 None False)"

definition partARegex :: regex where
  "partARegex =
     seq [part_header CHR ''A'', body_lazy,
          Ahead (Alt (seq [opt (seq [hashes 0, many (OneOf [Space])]),
                           bold, lit ''Part'', many (OneOf [Space]), chr CHR ''B''])
                     Eol)]"

definition partBRegex :: regex where
  "partBRegex = seq [part_header CHR ''B'', body_lazy, Eol]"

definition group1 :: "captures option \<Rightarrow> string option" where
  "group1 m = (case m of None \<Rightarrow> None | Some caps \<Rightarrow> caps 1)"

definition split_response :: "string \<Rightarrow> string \<times> string" where
  "split_response response =
     (let partAMatch = regex_match True partARegex response;
          partBMatch = regex_match True partBRegex response;
          partA = (case group1 partAMatch of Some body \<Rightarrow> trim body | None \<Rightarrow> []);
          partB = (case group1 partBMatch of Some body \<Rightarrow> trim body | None \<Rightarrow> [])
      in if partA = [] \<and> partB = [] then ([], response) else (partA, partB))"

section \<open>LLM service\<close>

text \<open>
  A call of \<open>client.chat.completions.create\<close> either rejects (\<open>Throws\<close> with the
  message of the error) or resolves; \<open>Content t\<close> is a completion whose
  \<open>choices?.[0]?.message?.content\<close> is \<open>t\<close>, the empty string standing for
  every falsy content. The backend is any function of the model that is called
  and of the calls made before; the request body is fixed by the arguments of
  the entry point, so it is not a further argument.
\<close>

datatype outcome = Throws string | Content string

type_synonym backend = "string list \<Rightarrow> string \<Rightarrow> outcome"

datatype js_error = Error string | Undefined

record llm_service =
  client :: bool
  isInitialized :: bool
  model :: string
  requestCount :: nat
  errorCount :: nat

definition create :: "backend \<Rightarrow> string \<Rightarrow> runtime \<Rightarrow> outcome \<times> runtime" where
  "create be m rt = (be (requests rt) m, rt\<lparr>requests := requests rt @ [m]\<rparr>)"

definition delay :: "nat \<Rightarrow> runtime \<Rightarrow> runtime" where
  "delay ms rt = rt\<lparr>sleeps := sleeps rt @ [ms]\<rparr>"

text \<open>The body of the \<open>try\<close> block of one attempt of \<open>executeRequest\<close>.\<close>

definition attempt_text :: "outcome \<Rightarrow> js_error + string" where
  "attempt_text out =
     (case out of
        Throws msg \<Rightarrow> Inl (Error msg)
      | Content text \<Rightarrow> if text = [] then Inl (Error ''Empty response from Groq'') else Inr text)"

function request_loop ::
  "backend \<Rightarrow> string \<Rightarrow> nat \<Rightarrow> nat \<Rightarrow> js_error \<Rightarrow> runtime \<Rightarrow> (js_error + string) \<times> runtime" where
  "request_loop be m maxRetries attempt lastError rt =
     (if attempt \<le> maxRetries
      then (case attempt_text (fst (create be m rt)) of
              Inr text \<Rightarrow> (Inr text, snd (create be m rt))
            | Inl error \<Rightarrow>
                request_loop be m maxRetries (attempt + 1) error
                  (if attempt < maxRetries then delay (1000 * attempt) (snd (create be m rt))
                   else snd (create be m rt)))
      else (Inl lastError, rt))"
  by pat_completeness auto
termination
  by (relation "measure (\<lambda>(be, m, maxRetries, attempt, lastError, rt). Suc maxRetries - attempt)") auto

declare request_loop.simps [simp del]

text \<open>
  \<open>maxRetriesCfg\<close> is the value of \<open>config.get('llm.groq.maxRetries')\<close>, \<open>None\<close>
  when the key is absent; \<open>|| 3\<close> replaces an absent value and \<open>0\<close>.
\<close>

definition executeRequest ::
  "backend \<Rightarrow> nat option \<Rightarrow> llm_service \<Rightarrow> runtime \<Rightarrow> (js_error + string) \<times> runtime" where
  "executeRequest be maxRetriesCfg svc rt =
     (if \<not> client svc then (Inl (Error ''Groq client not initialized''), rt)
      else (let maxRetries = (case maxRetriesCfg of None \<Rightarrow> 3 | Some n \<Rightarrow> if n = 0 then 3 else n)
            in request_loop be (model svc) maxRetries 1 Undefined rt))"

definition visionModels :: "string list" where
  "visionModels =
     [''meta-llama/llama-4-scout-17b-16e-instruct'',
      ''llama-3.2-11b-vision-preview'',
      ''llama-3.2-90b-vision-preview'']"

text \<open>
  The loop \<open>for (const modelName of visionModels)\<close>: the result is
  \<open>Some (extractedText, visionModel)\<close> when \<open>extractionSuccess\<close> is set. Without a
  client the call itself throws inside the \<open>try\<close> of the loop, before any
  request is sent.
\<close>

fun vision_loop ::
  "backend \<Rightarrow> llm_service \<Rightarrow> string list \<Rightarrow> runtime \<Rightarrow> (string \<times> string) option \<times> runtime" where
  "vision_loop be svc [] rt = (None, rt)"
| "vision_loop be svc (modelName # rest) rt =
     (if \<not> client svc then vision_loop be svc rest rt
      else case fst (create be modelName rt) of
             Content text \<Rightarrow> (Some (text, modelName), snd (create be modelName rt))
           | Throws msg \<Rightarrow> vision_loop be svc rest (snd (create be modelName rt)))"

record llm_result =
  response :: string
  partA :: "string option"
  partB :: "string option"
  detectedType :: "string option"
  extractedText :: "string option"
  metadata_res :: metadata

definition generateFallbackResponse :: "string \<Rightarrow> string \<Rightarrow> llm_result" where
  "generateFallbackResponse text activeSkillArg =
     \<lparr>response =
        (if activeSkillArg = ''system-design''
         then ''Consider the scalability implications here. Think about read vs write patterns, caching layers, and whether you need strong consistency or eventual consistency.''
         else if activeSkillArg = ''technical-screening''
         then ''Think about the time complexity of your approach. Is there a way to optimize with a different data structure like a hash map or a heap?''
         else ''Let me think about this problem. Consider the pattern '' @ em_dash @ '' is it a sliding window, two pointers, or dynamic programming approach?''),
      partA = Some [],
      partB = Some [],
      detectedType = Some (if activeSkillArg = ''system-design'' then ''design'' else ''coding''),
      extractedText = Some text,
      metadata_res =
        [(''processingTime'', MNum 0), (''model'', MStr ''fallback''),
         (''skill'', MStr activeSkillArg), (''usedFallback'', MBool True),
         (''isStructuredResponse'', MBool False)]\<rparr>"

text \<open>
  The entry points. Their arguments \<open>sessionMemory\<close> and \<open>programmingLanguage\<close>,
  and \<open>imageBuffer\<close> and \<open>mimeType\<close> of the screen capture, only shape the
  request body and are left out. A rejected request is the one exception that
  the \<open>try\<close> block of an entry point can see.
\<close>

definition processTextWithSkill ::
  "backend \<Rightarrow> nat option \<Rightarrow> string \<Rightarrow> string \<Rightarrow> string \<Rightarrow> bool \<Rightarrow>
   llm_service \<Rightarrow> runtime \<Rightarrow> llm_result \<times> llm_service \<times> runtime" where
  "processTextWithSkill be maxRetriesCfg text activeSkillArg complexity isFollowUp svc rt =
     (let (startTime, rt1) = date_now rt
      in if \<not> isInitialized svc then (generateFallbackResponse text activeSkillArg, svc, rt1)
         else (case executeRequest be maxRetriesCfg svc rt1 of
                 (Inr resp, rt2) \<Rightarrow>
                   (let (endTime, rt3) = date_now rt2
                    in (\<lparr>response = resp, partA = None, partB = None, detectedType = None,
                         extractedText = None,
                         metadata_res =
                           [(''processingTime'', MNum (endTime - startTime)),
                            (''model'', MStr (model svc)), (''skill'', MStr activeSkillArg),
                            (''complexity'', MStr complexity), (''usedFallback'', MBool False),
                            (''isFollowUp'', MBool isFollowUp)]\<rparr>,
                        svc\<lparr>requestCount := requestCount svc + 1\<rparr>, rt3))
               | (Inl err, rt2) \<Rightarrow>
                   (generateFallbackResponse text activeSkillArg,
                    svc\<lparr>errorCount := errorCount svc + 1\<rparr>, rt2)))"

definition processTranscriptionWithIntelligentResponse ::
  "backend \<Rightarrow> nat option \<Rightarrow> string \<Rightarrow> string \<Rightarrow> bool \<Rightarrow>
   llm_service \<Rightarrow> runtime \<Rightarrow> llm_result \<times> llm_service \<times> runtime" where
  "processTranscriptionWithIntelligentResponse be maxRetriesCfg text activeSkillArg isFollowUp svc rt =
     (let (startTime, rt1) = date_now rt
      in if \<not> isInitialized svc then (generateFallbackResponse text activeSkillArg, svc, rt1)
         else (case executeRequest be maxRetriesCfg svc rt1 of
                 (Inr resp, rt2) \<Rightarrow>
                   (let (endTime, rt3) = date_now rt2
                    in (\<lparr>response = resp, partA = None, partB = None, detectedType = None,
                         extractedText = None,
                         metadata_res =
                           [(''processingTime'', MNum (endTime - startTime)),
                            (''model'', MStr (model svc)), (''skill'', MStr activeSkillArg),
                            (''complexity'', MStr ''medium''), (''usedFallback'', MBool False),
                            (''isCopilot'', MBool True), (''isFollowUp'', MBool isFollowUp)]\<rparr>,
                        svc\<lparr>requestCount := requestCount svc + 1\<rparr>, rt3))
               | (Inl err, rt2) \<Rightarrow>
                   (generateFallbackResponse text activeSkillArg,
                    svc\<lparr>errorCount := errorCount svc + 1\<rparr>, rt2)))"

definition processScreenCaptureWithStructuredResponse ::
  "backend \<Rightarrow> nat option \<Rightarrow> string \<Rightarrow> bool \<Rightarrow>
   llm_service \<Rightarrow> runtime \<Rightarrow> llm_result \<times> llm_service \<times> runtime" where
  "processScreenCaptureWithStructuredResponse be maxRetriesCfg activeSkillArg isFollowUp svc rt =
     (let (startTime, rt1) = date_now rt
      in if \<not> isInitialized svc
         then (generateFallbackResponse ''Image analysis requested'' activeSkillArg, svc, rt1)
         else (case vision_loop be svc visionModels rt1 of
                 (None, rt2) \<Rightarrow>
                   (generateFallbackResponse ''Image analysis failed'' activeSkillArg,
                    svc\<lparr>errorCount := errorCount svc + 1\<rparr>, rt2)
               | (Some (extracted, visionModel), rt2) \<Rightarrow>
                   (let detected = detectQuestionType extracted activeSkillArg
                    in case executeRequest be maxRetriesCfg svc rt2 of
                         (Inl err, rt3) \<Rightarrow>
                           (generateFallbackResponse ''Image analysis failed'' activeSkillArg,
                            svc\<lparr>errorCount := errorCount svc + 1\<rparr>, rt3)
                       | (Inr resp, rt3) \<Rightarrow>
                           (let (endTime, rt4) = date_now rt3;
                                (a, b) = split_response resp
                            in (\<lparr>response = resp, partA = Some a, partB = Some b,
                                 detectedType = Some detected, extractedText = Some extracted,
                                 metadata_res =
                                   [(''processingTime'', MNum (endTime - startTime)),
                                    (''model'', MStr (model svc)),
                                    (''visionModel'', MStr visionModel),
                                    (''skill'', MStr activeSkillArg),
                                    (''detectedType'', MStr detected),
                                    (''isFollowUp'', MBool isFollowUp),
                                    (''usedFallback'', MBool False),
                                    (''isImageAnalysis'', MBool True),
                                    (''isStructuredResponse'', MBool True)]\<rparr>,
                                svc\<lparr>requestCount := requestCount svc + 1\<rparr>, rt4)))))"

section \<open>Example data\<close>

definition ex_runtime :: "int \<Rightarrow> runtime" where
  "ex_runtime t0 =
     \<lparr>clock = (\<lambda>n. t0 + int n), clockReads = 0, randomSuffix = (\<lambda>n. ''k3x9q'' @ show_nat n),
      randomReads = 0, pendingTimers = [7], requests = [], sleeps = []\<rparr>"

definition ex_event :: "int \<Rightarrow> string \<Rightarrow> string \<Rightarrow> string \<Rightarrow> string \<Rightarrow> event" where
  "ex_event ts r a c txt =
     \<lparr>id_evt = ''evt_'' @ show_int ts @ ''_k3x9q0'', timestamp = ts, role = r, content = txt,
      action = a, category = c, metadata = [(''skill'', MStr ''dsa'')]\<rparr>"

definition ex_manager :: "event list \<Rightarrow> topic_tags \<Rightarrow> session_manager" where
  "ex_manager evs tags =
     \<lparr>sessionMemory = evs, compressionEnabled = True, maxSize = 3, compressionThreshold = 2,
      maxDurationMinutes = 240, activeSkill = ''dsa'', sessionStartTime = Some 1000,
      sessionActive = True, topicTags = tags, sessionTimer = Some 7\<rparr>"

definition ex_occurrence :: "int \<Rightarrow> topic_entry" where
  "ex_occurrence ts = \<lparr>content_tag = ''use redis as a cache'', timestamp_tag = ts, relevance = 1\<rparr>"

definition ex_loader :: "string \<Rightarrow> load_result" where
  "ex_loader skill =
     (if skill = ''dsa'' then LoadThrows
      else if skill = ''technical-screening'' then Loaded []
      else Loaded ''You are a system design interviewer.'')"

text \<open>
  A backend whose first vision model always fails, whose second one fails on
  its first call and answers from its second call on, and whose third one
  always fails.
\<close>

definition ex_backend :: backend where
  "ex_backend history m =
     (if m = ''meta-llama/llama-4-scout-17b-16e-instruct'' then Throws ''503''
      else if m = ''llama-3.2-11b-vision-preview''
      then (if count_list history m \<ge> 1 then Content ''def f(x): return x'' else Throws ''429'')
      else Throws ''404'')"

definition ex_service :: "bool \<Rightarrow> llm_service" where
  "ex_service init =
     \<lparr>client = init, isInitialized = init, model = ''llama-3.2-11b-vision-preview'',
      requestCount = 0, errorCount = 0\<rparr>"

section \<open>Properties of consolidation\<close>









section \<open>Properties of eviction\<close>

lemma evict_topics_char:
  "evict_topics c tags = filter (\<lambda>(t, es). es \<noteq> []) (map (\<lambda>(t, es). (t, filter (\<lambda>e. timestamp_tag e \<ge> c) es)) tags)"
  by (induction c tags rule: evict_topics.induct) (auto simp: Let_def)

text \<open>
  Claim C3: let \<open>now\<close> be the clock reading of \<open>evictExpiredEvents\<close> and the
  cutoff \<open>now - maxDurationMinutes * 60000\<close>. Afterwards every surviving event
  has a timestamp at or after the cutoff or is a system event with action
  \<open>skill_init\<close>; every topic that remains has a non-empty list of occurrences,
  none of them older than the cutoff. Nothing else is lost: the log is the old
  log without the events that are older than the cutoff and are not
  \<open>skill_init\<close> system events, so those are retained whatever their age, and
  the topic index is the old one with the old occurrences removed and the
  topics that have none left deleted.
\<close>

theorem evictExpired_survivors:
  assumes "evictExpiredEvents rt sm = (rt', sm')"
  shows "(let now = clock rt (clockReads rt);
              cutoff = now - maxDurationMinutes sm * 60000
          in (\<forall>e \<in> set (sessionMemory sm').
                timestamp e \<ge> cutoff \<or> (category e = ''system'' \<and> action e = ''skill_init''))
             \<and> (\<forall>(topic, entries) \<in> set (topicTags sm').
                  entries \<noteq> [] \<and> (\<forall>occ \<in> set entries. timestamp_tag occ \<ge> cutoff))
             \<and> sessionMemory sm'
                 = filter (\<lambda>e. timestamp e \<ge> cutoff
                               \<or> (category e = ''system'' \<and> action e = ''skill_init''))
                     (sessionMemory sm)
             \<and> topicTags sm'
                 = filter (\<lambda>(topic, entries). entries \<noteq> [])
                     (map (\<lambda>(topic, entries).
                             (topic, filter (\<lambda>occ. timestamp_tag occ \<ge> cutoff) entries))
                        (topicTags sm)))"
proof -
  let ?c = "clock rt (clockReads rt) - maxDurationMinutes sm * 60000"
  have cut: "cutoff_time sm (fst (date_now rt)) = ?c"
    by (simp add: cutoff_time_def date_now_def)
  have keep: "keep_event ?c = (\<lambda>e. timestamp e \<ge> ?c \<or> (category e = ''system'' \<and> action e = ''skill_init''))"
    by (rule ext) (auto simp: keep_event_def)
  have mem0: "sessionMemory sm' = filter (keep_event (cutoff_time sm (fst (date_now rt)))) (sessionMemory sm)"
    and tags0: "topicTags sm' = evict_topics (cutoff_time sm (fst (date_now rt))) (topicTags sm)"
    using assms by (auto simp: evictExpiredEvents_def Let_def split: prod.splits)
  have mem: "sessionMemory sm'
      = filter (\<lambda>e. timestamp e \<ge> ?c \<or> (category e = ''system'' \<and> action e = ''skill_init''))
          (sessionMemory sm)"
    using mem0 unfolding cut keep .
  have tags: "topicTags sm'
      = filter (\<lambda>(topic, entries). entries \<noteq> [])
          (map (\<lambda>(topic, entries). (topic, filter (\<lambda>occ. timestamp_tag occ \<ge> ?c) entries))
             (topicTags sm))"
    using tags0 unfolding cut evict_topics_char .
  have 1: "\<forall>e \<in> set (sessionMemory sm').
      timestamp e \<ge> ?c \<or> (category e = ''system'' \<and> action e = ''skill_init'')"
    unfolding mem by simp
  have 2: "\<forall>(topic, entries) \<in> set (topicTags sm').
      entries \<noteq> [] \<and> (\<forall>occ \<in> set entries. timestamp_tag occ \<ge> ?c)"
    unfolding tags by auto
  from 1 2 mem tags show ?thesis unfolding Let_def by (intro conjI)
qed

text \<open>
  Claim C3 at a concrete store with a window of one minute: the question and
  the occurrences that are older than a minute go, the older \<open>skill_init\<close>
  event stays, and the topic left without occurrences is deleted.
\<close>

theorem evictExpired_survivors_witness:
  "list_all (\<lambda>e. timestamp e \<ge> 20000000 - 1 * 60000 \<or> (category e = ''system'' \<and> action e = ''skill_init''))
     (sessionMemory (snd (evictExpiredEvents (ex_runtime 20000000)
        ((ex_manager [ex_event 0 ''system'' ''skill_init'' ''system'' ''Skill prompt loaded: dsa'',
                     ex_event 19000000 ''user'' ''voice_input'' ''interaction'' ''old question'',
                     ex_event 19950000 ''user'' ''voice_input'' ''interaction'' ''new question'']
                    [(''redis'', [ex_occurrence 19000000, ex_occurrence 19950000]),
                     (''cache'', [ex_occurrence 19000000])])\<lparr>maxDurationMinutes := 1\<rparr>))))
   \<and> map content (sessionMemory (snd (evictExpiredEvents (ex_runtime 20000000)
        ((ex_manager [ex_event 0 ''system'' ''skill_init'' ''system'' ''Skill prompt loaded: dsa'',
                     ex_event 19000000 ''user'' ''voice_input'' ''interaction'' ''old question'',
                     ex_event 19950000 ''user'' ''voice_input'' ''interaction'' ''new question'']
                    [(''redis'', [ex_occurrence 19000000, ex_occurrence 19950000]),
                     (''cache'', [ex_occurrence 19000000])])\<lparr>maxDurationMinutes := 1\<rparr>))))
     = [''Skill prompt loaded: dsa'', ''new question'']
   \<and> topicTags (snd (evictExpiredEvents (ex_runtime 20000000)
        ((ex_manager [ex_event 0 ''system'' ''skill_init'' ''system'' ''Skill prompt loaded: dsa'',
                     ex_event 19000000 ''user'' ''voice_input'' ''interaction'' ''old question'',
                     ex_event 19950000 ''user'' ''voice_input'' ''interaction'' ''new question'']
                    [(''redis'', [ex_occurrence 19000000, ex_occurrence 19950000]),
                     (''cache'', [ex_occurrence 19000000])])\<lparr>maxDurationMinutes := 1\<rparr>)))
     = [(''redis'', [ex_occurrence 19950000])]"
  using evictExpired_survivors [OF surjective_pairing,
      of "ex_runtime 20000000"
         "(ex_manager [ex_event 0 ''system'' ''skill_init'' ''system'' ''Skill prompt loaded: dsa'',
                     ex_event 19000000 ''user'' ''voice_input'' ''interaction'' ''old question'',
                     ex_event 19950000 ''user'' ''voice_input'' ''interaction'' ''new question'']
                    [(''redis'', [ex_occurrence 19000000, ex_occurrence 19950000]),
                     (''cache'', [ex_occurrence 19000000])])\<lparr>maxDurationMinutes := 1\<rparr>"]
  by (simp add: evictExpiredEvents_def date_now_def cutoff_time_def keep_event_def
        ex_runtime_def ex_manager_def ex_event_def ex_occurrence_def)

section \<open>Properties of maintenance\<close>

lemma evictExpiredEvents_fields:
  "evictExpiredEvents rt sm = (rt', sm') \<Longrightarrow>
     maxSize sm' = maxSize sm \<and> compressionThreshold sm' = compressionThreshold sm
     \<and> sessionMemory sm' = filter (keep_event (cutoff_time sm (fst (date_now rt)))) (sessionMemory sm)"
  by (auto simp: evictExpiredEvents_def Let_def split: prod.splits)

text \<open>
  Claim C4: when \<open>compressionThreshold \<le> maxSize\<close>, the log is no longer than
  \<open>maxSize\<close> after \<open>performMaintenanceIfNeeded\<close>, and the method only cuts from
  the front: the new log is the log after eviction and consolidation (the old
  log when no maintenance ran) without its oldest events, so it is a suffix of
  it and the newest events stay.
\<close>

theorem maintenance_bounds:
  assumes "compressionThreshold sm \<le> maxSize sm"
    and "performMaintenanceIfNeeded rt sm = (rt', sm')"
  shows "length (sessionMemory sm') \<le> maxSize sm
       \<and> maxSize sm' = maxSize sm
       \<and> (let log = (if length (sessionMemory sm) > compressionThreshold sm
                      then consolidate (filter (keep_event (cutoff_time sm (fst (date_now rt))))
                                          (sessionMemory sm))
                      else sessionMemory sm)
          in sessionMemory sm' = drop (length log - maxSize sm) log
             \<and> suffix (sessionMemory sm') log)"
proof (cases "length (sessionMemory sm) > compressionThreshold sm")
  case False
  with assms have "sm' = sm" by (simp add: performMaintenanceIfNeeded_def)
  with False assms(1) show ?thesis by simp
next
  case True
  obtain rt1 sm1 where ev: "evictExpiredEvents rt sm = (rt1, sm1)" by (cases "evictExpiredEvents rt sm")
  note f = evictExpiredEvents_fields [OF ev]
  let ?log = "consolidate (filter (keep_event (cutoff_time sm (fst (date_now rt)))) (sessionMemory sm))"
  have mem: "sessionMemory sm' = drop (length ?log - maxSize sm) ?log" and ms: "maxSize sm' = maxSize sm"
    using assms(2) True ev f
    by (auto simp: performMaintenanceIfNeeded_def performMaintenance_def consolidateSimilarEvents_def
          Let_def split: if_splits)
  have "suffix (sessionMemory sm') ?log" unfolding mem by (rule suffix_drop)
  moreover have "length (sessionMemory sm') \<le> maxSize sm" unfolding mem by simp
  ultimately show ?thesis using True mem ms by simp
qed

text \<open>
  Claim C4 at a concrete store with \<open>compressionThreshold = 2\<close> and
  \<open>maxSize = 3\<close>: of four events the oldest one is cut.
\<close>

theorem maintenance_bounds_witness:
  "compressionThreshold (ex_manager [ex_event 1 ''user'' ''voice_input'' ''interaction'' ''q1'',
                     ex_event 2 ''model'' ''model_response'' ''ai'' ''a1'',
                     ex_event 3 ''user'' ''voice_input'' ''interaction'' ''q2'',
                     ex_event 4 ''model'' ''model_response'' ''ai'' ''a2''] [])
     \<le> maxSize (ex_manager [ex_event 1 ''user'' ''voice_input'' ''interaction'' ''q1'',
                     ex_event 2 ''model'' ''model_response'' ''ai'' ''a1'',
                     ex_event 3 ''user'' ''voice_input'' ''interaction'' ''q2'',
                     ex_event 4 ''model'' ''model_response'' ''ai'' ''a2''] [])
   \<and> map content (sessionMemory (snd (performMaintenanceIfNeeded (ex_runtime 5)
        (ex_manager [ex_event 1 ''user'' ''voice_input'' ''interaction'' ''q1'',
                     ex_event 2 ''model'' ''model_response'' ''ai'' ''a1'',
                     ex_event 3 ''user'' ''voice_input'' ''interaction'' ''q2'',
                     ex_event 4 ''model'' ''model_response'' ''ai'' ''a2''] []))))
     = [''a1'', ''q2'', ''a2'']
   \<and> length (sessionMemory (snd (performMaintenanceIfNeeded (ex_runtime 5)
        (ex_manager [ex_event 1 ''user'' ''voice_input'' ''interaction'' ''q1'',
                     ex_event 2 ''model'' ''model_response'' ''ai'' ''a1'',
                     ex_event 3 ''user'' ''voice_input'' ''interaction'' ''q2'',
                     ex_event 4 ''model'' ''model_response'' ''ai'' ''a2''] [])))) \<le> 3"
  using maintenance_bounds [OF _ surjective_pairing,
      of "ex_manager [ex_event 1 ''user'' ''voice_input'' ''interaction'' ''q1'',
                     ex_event 2 ''model'' ''model_response'' ''ai'' ''a1'',
                     ex_event 3 ''user'' ''voice_input'' ''interaction'' ''q2'',
                     ex_event 4 ''model'' ''model_response'' ''ai'' ''a2''] []"
         "ex_runtime 5"]
  by (simp add: performMaintenanceIfNeeded_def performMaintenance_def consolidateSimilarEvents_def
        evictExpiredEvents_def date_now_def cutoff_time_def keep_event_def
        ex_runtime_def ex_manager_def ex_event_def)

section \<open>Properties of appending a screen capture\<close>

lemma consolidate_snoc:
  "category ev \<noteq> ''system'' \<Longrightarrow> consolidate (xs @ [ev]) = consolidate xs @ [ev]"
  by (induction xs rule: consolidate.induct) auto

lemma date_now_reads:
  "date_now rt = (now, rt1) \<Longrightarrow>
     now = clock rt (clockReads rt) \<and> clock rt1 = clock rt \<and> clockReads rt1 = Suc (clockReads rt)"
  by (auto simp: date_now_def)

lemma evict_keeps_last:
  assumes "evictExpiredEvents rt sm = (rt', sm')"
    and "sessionMemory sm = xs @ [ev]"
    and "cutoff_time sm (clock rt (clockReads rt)) \<le> timestamp ev"
  shows "\<exists>ys. sessionMemory sm' = ys @ [ev]"
    and "maxSize sm' = maxSize sm" and "maxDurationMinutes sm' = maxDurationMinutes sm"
    and "compressionThreshold sm' = compressionThreshold sm"
    and "clock rt' = clock rt" and "clockReads rt' = Suc (clockReads rt)"
  using assms
  by (auto simp: evictExpiredEvents_def date_now_def keep_event_def Let_def split: prod.splits)

lemma maintenance_keeps_last:
  assumes "performMaintenanceIfNeeded rt sm = (rt', sm')"
    and "sessionMemory sm = xs @ [ev]"
    and "category ev \<noteq> ''system''"
    and "0 < maxSize sm"
    and "cutoff_time sm (clock rt (clockReads rt)) \<le> timestamp ev"
  shows "\<exists>ys. sessionMemory sm' = ys @ [ev]"
proof (cases "length (sessionMemory sm) > compressionThreshold sm")
  case False
  with assms(1) have "sm' = sm" by (simp add: performMaintenanceIfNeeded_def)
  with assms(2) show ?thesis by simp
next
  case True
  obtain rt1 sm1 where ev: "evictExpiredEvents rt sm = (rt1, sm1)" by (cases "evictExpiredEvents rt sm")
  from evict_keeps_last(1,2) [OF ev assms(2) assms(5)]
  obtain ys where ys: "sessionMemory sm1 = ys @ [ev]" and ms: "maxSize sm1 = maxSize sm" by auto
  let ?log = "consolidate ys @ [ev]"
  have log: "consolidate (sessionMemory sm1) = ?log"
    unfolding ys using assms(3) by (rule consolidate_snoc)
  have mem: "sessionMemory sm' = drop (length ?log - maxSize sm) ?log"
    using assms(1) True ev log ms
    by (auto simp: performMaintenanceIfNeeded_def performMaintenance_def consolidateSimilarEvents_def
          Let_def split: if_splits)
  have "length ?log - maxSize sm \<le> length (consolidate ys)" using assms(4) by simp
  then have "drop (length ?log - maxSize sm) ?log = drop (length ?log - maxSize sm) (consolidate ys) @ [ev]"
    by simp
  with mem show ?thesis by simp
qed

lemma getElapsedMinutes_reads:
  "getElapsedMinutes rt sm = (m, rt1) \<Longrightarrow>
     clock rt1 = clock rt \<and> clockReads rt \<le> clockReads rt1 \<and> clockReads rt1 \<le> Suc (clockReads rt)"
  by (auto simp: getElapsedMinutes_def date_now_def Let_def split: option.splits if_splits prod.splits)

lemma generateEventId_reads:
  "generateEventId rt = (i, rt1) \<Longrightarrow> clock rt1 = clock rt \<and> clockReads rt1 = Suc (clockReads rt)"
  by (auto simp: generateEventId_def date_now_def math_random_def Let_def split: prod.splits)

lemma extractAndTagTopics_fields:
  "sessionMemory (extractAndTagTopics tm c ts sm) = sessionMemory sm"
  "maxSize (extractAndTagTopics tm c ts sm) = maxSize sm"
  "maxDurationMinutes (extractAndTagTopics tm c ts sm) = maxDurationMinutes sm"
  "compressionThreshold (extractAndTagTopics tm c ts sm) = compressionThreshold sm"
  by (simp_all add: extractAndTagTopics_def)

lemma cutoff_time_cong:
  "maxDurationMinutes sm' = maxDurationMinutes sm \<Longrightarrow> cutoff_time sm' t = cutoff_time sm t"
  by (simp add: cutoff_time_def)

lemma addConversationEvent_event:
  assumes "addConversationEvent tm r c a md rt sm = (ev, rt', sm')"
  shows "content ev = c" and "role ev = r"
    and "timestamp ev = clock rt (Suc (clockReads rt))"
    and "action ev = (if truthy a then the a else inferActionFromRole r)"
    and "category ev = categorizeAction (if truthy a then the a else r)"
  using assms
  by (auto simp: addConversationEvent_def generateEventId_def date_now_def math_random_def Let_def
      split: prod.splits)

lemma addConversationEvent_stored:
  assumes run: "addConversationEvent tm r c a md rt sm = (ev, rt', sm')"
    and cat: "category ev \<noteq> ''system''"
    and size: "0 < maxSize sm"
    and fresh: "\<forall>n \<le> clockReads rt + 4. cutoff_time sm (clock rt n) \<le> timestamp ev"
  shows "\<exists>ys. sessionMemory sm' = ys @ [ev]"
proof -
  obtain newId rt1 where g1: "generateEventId rt = (newId, rt1)" by (cases "generateEventId rt")
  obtain ts rt2 where g2: "date_now rt1 = (ts, rt2)" by (cases "date_now rt1")
  obtain el rt3 where g3: "getElapsedMinutes rt2 sm = (el, rt3)" by (cases "getElapsedMinutes rt2 sm")
  let ?sm1 = "sm\<lparr>sessionMemory := sessionMemory sm @ [ev]\<rparr>"
  let ?sm2 = "extractAndTagTopics tm c ts ?sm1"
  obtain rt4 sm3 where g4: "evictExpiredEvents rt3 ?sm2 = (rt4, sm3)" by (cases "evictExpiredEvents rt3 ?sm2")
  have g5: "performMaintenanceIfNeeded rt4 sm3 = (rt', sm')"
    using run g1 g2 g3 g4 by (auto simp: addConversationEvent_def Let_def split: prod.splits)
  note r1 = generateEventId_reads [OF g1]
  note r2 = date_now_reads [OF g2]
  note r3 = getElapsedMinutes_reads [OF g3]
  have clk3: "clock rt3 = clock rt" using r1 r2 r3 by simp
  have rd3: "clockReads rt3 \<le> clockReads rt + 3" using r1 r2 r3 by simp
  have c3: "cutoff_time ?sm2 (clock rt3 (clockReads rt3)) \<le> timestamp ev"
    using fresh rd3 clk3 by (simp add: cutoff_time_cong [of ?sm2 sm] extractAndTagTopics_fields)
  have m2: "sessionMemory ?sm2 = sessionMemory sm @ [ev]" by (simp add: extractAndTagTopics_fields)
  note e = evict_keeps_last [OF g4 m2 c3]
  from e(1) obtain ys where ys: "sessionMemory sm3 = ys @ [ev]" by blast
  have ms3: "0 < maxSize sm3" using e(2) size by (simp add: extractAndTagTopics_fields)
  have md3: "maxDurationMinutes sm3 = maxDurationMinutes sm" using e(3) by (simp add: extractAndTagTopics_fields)
  have "clockReads rt4 \<le> clockReads rt + 4" using e(6) rd3 by simp
  then have c4: "cutoff_time sm3 (clock rt4 (clockReads rt4)) \<le> timestamp ev"
    using fresh e(5) clk3 by (simp add: cutoff_time_cong [OF md3])
  show ?thesis by (rule maintenance_keeps_last [OF g5 ys cat ms3 c4])
qed

text \<open>
  Claim C9: the event that \<open>addOCREvent\<close> appends has the content
  \<open>Screenshot captured: \<close> followed by at most the first 4000 characters of the
  extracted text, followed by the marker \<open>...\<close> exactly when the text is longer
  than 4000 characters; it is a system event with action \<open>ocr_capture\<close> in
  category \<open>capture\<close>; and it is the last event of the stored log as long as
  \<open>maxSize\<close> is positive and the event is not older than the cutoffs of the
  evictions that the call runs.
\<close>

theorem addOCREvent_payload_capped:
  assumes "addOCREvent topicMatches text md rt sm = (ev, rt', sm')"
  shows "content ev = ''Screenshot captured: '' @ take 4000 text
                       @ (if length text > 4000 then ''...'' else [])
       \<and> length (content ev) \<le> 21 + 4000 + 3
       \<and> role ev = ''system'' \<and> action ev = ''ocr_capture'' \<and> category ev = ''capture''
       \<and> (0 < maxSize sm \<and> (\<forall>n \<le> clockReads rt + 4. cutoff_time sm (clock rt n) \<le> timestamp ev)
            \<longrightarrow> sessionMemory sm' \<noteq> [] \<and> last (sessionMemory sm') = ev)"
proof -
  let ?safe = "if length text > 4000 then take 4000 text @ ''...'' else text"
  have run: "addConversationEvent topicMatches ''system'' (''Screenshot captured: '' @ ?safe)
               (Some ''ocr_capture'') (spread [(''fullTextLength'', MNum (int (length text)))] md) rt sm
             = (ev, rt', sm')"
    using assms by (simp add: addOCREvent_def Let_def)
  note f = addConversationEvent_event [OF run]
  have c: "content ev = ''Screenshot captured: '' @ take 4000 text @ (if length text > 4000 then ''...'' else [])"
    unfolding f(1) by simp
  have l: "length (content ev) \<le> 21 + 4000 + 3" unfolding c by simp
  have r: "role ev = ''system''" by (rule f(2))
  have a: "action ev = ''ocr_capture''" unfolding f(4) by simp
  have k: "category ev = ''capture''" unfolding f(5) by (simp add: categorizeAction_def categories_def)
  have s: "0 < maxSize sm \<and> (\<forall>n \<le> clockReads rt + 4. cutoff_time sm (clock rt n) \<le> timestamp ev)
            \<longrightarrow> sessionMemory sm' \<noteq> [] \<and> last (sessionMemory sm') = ev"
  proof
    assume h: "0 < maxSize sm \<and> (\<forall>n \<le> clockReads rt + 4. cutoff_time sm (clock rt n) \<le> timestamp ev)"
    have nk: "category ev \<noteq> ''system''" unfolding k by simp
    from h have h1: "0 < maxSize sm"
      and h2: "\<forall>n \<le> clockReads rt + 4. cutoff_time sm (clock rt n) \<le> timestamp ev"
      by (rule conjunct1, rule conjunct2)
    from addConversationEvent_stored [OF run nk h1 h2]
    obtain ys where "sessionMemory sm' = ys @ [ev]" by (rule exE)
    then show "sessionMemory sm' \<noteq> [] \<and> last (sessionMemory sm') = ev" by simp
  qed
  from c l r a k s show ?thesis by (intro conjI)
qed

text \<open>
  Claim C9 at a text of 4001 characters: 4000 of them and the marker are stored,
  at the end of the log.
\<close>

theorem addOCREvent_payload_capped_witness:
  "content (fst (addOCREvent (\<lambda>c. [''Redis'']) (replicate 4001 CHR ''a'') [] (ex_runtime 20000000)
                   (ex_manager [ex_event 19000000 ''user'' ''voice_input'' ''interaction'' ''q''] [])))
     = ''Screenshot captured: '' @ replicate 4000 CHR ''a'' @ ''...''
   \<and> 0 < maxSize (ex_manager [ex_event 19000000 ''user'' ''voice_input'' ''interaction'' ''q''] [])
   \<and> last (sessionMemory (snd (snd (addOCREvent (\<lambda>c. [''Redis'']) (replicate 4001 CHR ''a'') []
                   (ex_runtime 20000000)
                   (ex_manager [ex_event 19000000 ''user'' ''voice_input'' ''interaction'' ''q''] [])))))
     = fst (addOCREvent (\<lambda>c. [''Redis'']) (replicate 4001 CHR ''a'') [] (ex_runtime 20000000)
                   (ex_manager [ex_event 19000000 ''user'' ''voice_input'' ''interaction'' ''q''] []))"
proof -
  let ?rt = "ex_runtime 20000000"
  let ?sm = "ex_manager [ex_event 19000000 ''user'' ''voice_input'' ''interaction'' ''q''] []"
  let ?res = "addOCREvent (\<lambda>c. [''Redis'']) (replicate 4001 CHR ''a'') [] ?rt ?sm"
  have eq: "?res = (fst ?res, fst (snd ?res), snd (snd ?res))" by simp
  note t = addOCREvent_payload_capped [OF eq]
  have ts: "timestamp (fst ?res) = 20000001"
    using addConversationEvent_event(3) [of "\<lambda>c. [''Redis'']" _ _ _ _ ?rt ?sm "fst ?res" "fst (snd ?res)" "snd (snd ?res)"]
    by (simp add: addOCREvent_def ex_runtime_def)
  have h: "0 < maxSize ?sm \<and> (\<forall>n \<le> clockReads ?rt + 4. cutoff_time ?sm (clock ?rt n) \<le> timestamp (fst ?res))"
    unfolding ts by (simp add: ex_manager_def ex_runtime_def cutoff_time_def)
  have c: "content (fst ?res) = ''Screenshot captured: '' @ replicate 4000 CHR ''a'' @ ''...''"
    using t by simp
  from t h have "last (sessionMemory (snd (snd ?res))) = fst ?res" by blast
  with c h show ?thesis by blast
qed

section \<open>Properties of clearing\<close>

lemma init_skills_effect:
  "init_skills g skills rt sm = (rt', sm') \<Longrightarrow>
     (\<exists>new. sessionMemory sm' = sessionMemory sm @ new
        \<and> map content new
            = map (\<lambda>skill. ''Skill prompt loaded: '' @ skill)
                (filter (\<lambda>skill. case g skill of Loaded prompt \<Rightarrow> prompt \<noteq> [] | LoadThrows \<Rightarrow> False) skills)
        \<and> (\<forall>e \<in> set new. role e = ''system'' \<and> action e = ''skill_init'' \<and> category e = ''system''))
     \<and> topicTags sm' = topicTags sm \<and> sessionStartTime sm' = sessionStartTime sm
     \<and> sessionActive sm' = sessionActive sm \<and> sessionTimer sm' = sessionTimer sm
     \<and> pendingTimers rt' = pendingTimers rt"
proof (induction g skills rt sm arbitrary: rt' sm' rule: init_skills.induct)
  case (1 g rt sm)
  then show ?case by simp
next
  case (2 g skill skills rt sm)
  show ?case
  proof (cases "g skill")
    case LoadThrows
    with "2.prems" have "init_skills g skills rt sm = (rt', sm')" by simp
    from "2.IH"(1) [OF LoadThrows this] show ?thesis using LoadThrows by simp
  next
    case (Loaded prompt)
    show ?thesis
    proof (cases "prompt = []")
      case True
      with "2.prems" Loaded have "init_skills g skills rt sm = (rt', sm')" by simp
      from "2.IH"(2) [OF Loaded True this] show ?thesis using Loaded True by simp
    next
      case False
      obtain newId rt1 where g1: "generateEventId rt = (newId, rt1)" by (cases "generateEventId rt")
      obtain ts rt2 where g2: "date_now rt1 = (ts, rt2)" by (cases "date_now rt1")
      let ?sm1 = "sm\<lparr>sessionMemory := sessionMemory sm @ [skill_init_event skill prompt newId ts]\<rparr>"
      have run: "init_skills g skills rt2 ?sm1 = (rt', sm')"
        using "2.prems" Loaded False g1 g2 by simp
      have pt: "pendingTimers rt2 = pendingTimers rt"
        using g1 g2 by (auto simp: generateEventId_def date_now_def math_random_def Let_def split: prod.splits)
      note ih = "2.IH"(3) [OF Loaded False g1 [symmetric] refl g2 [symmetric] refl run]
      from ih have ex: "\<exists>new. sessionMemory sm' = sessionMemory ?sm1 @ new
        \<and> map content new = map (\<lambda>skill. ''Skill prompt loaded: '' @ skill)
                (filter (\<lambda>skill. case g skill of Loaded prompt \<Rightarrow> prompt \<noteq> [] | LoadThrows \<Rightarrow> False) skills)
        \<and> (\<forall>e \<in> set new. role e = ''system'' \<and> action e = ''skill_init'' \<and> category e = ''system'')"
        by (rule conjunct1)
      from ih have rest: "topicTags sm' = topicTags sm \<and> sessionStartTime sm' = sessionStartTime sm
          \<and> sessionActive sm' = sessionActive sm \<and> sessionTimer sm' = sessionTimer sm
          \<and> pendingTimers rt' = pendingTimers rt"
        using pt by simp
      from ex obtain new where n: "sessionMemory sm' = sessionMemory ?sm1 @ new
        \<and> map content new = map (\<lambda>skill. ''Skill prompt loaded: '' @ skill)
                (filter (\<lambda>skill. case g skill of Loaded prompt \<Rightarrow> prompt \<noteq> [] | LoadThrows \<Rightarrow> False) skills)
        \<and> (\<forall>e \<in> set new. role e = ''system'' \<and> action e = ''skill_init'' \<and> category e = ''system'')"
        by (rule exE)
      have a: "sessionMemory sm' = sessionMemory sm @ (skill_init_event skill prompt newId ts # new)"
        using n by simp
      have b: "map content (skill_init_event skill prompt newId ts # new)
          = map (\<lambda>skill. ''Skill prompt loaded: '' @ skill)
                (filter (\<lambda>skill. case g skill of Loaded prompt \<Rightarrow> prompt \<noteq> [] | LoadThrows \<Rightarrow> False) (skill # skills))"
        using n Loaded False by (simp add: skill_init_event_def)
      have c: "\<forall>e \<in> set (skill_init_event skill prompt newId ts # new).
          role e = ''system'' \<and> action e = ''skill_init'' \<and> category e = ''system''"
        using n by (simp add: skill_init_event_def)
      have exn: "\<exists>new. sessionMemory sm' = sessionMemory sm @ new
        \<and> map content new = map (\<lambda>skill. ''Skill prompt loaded: '' @ skill)
                (filter (\<lambda>skill. case g skill of Loaded prompt \<Rightarrow> prompt \<noteq> [] | LoadThrows \<Rightarrow> False) (skill # skills))
        \<and> (\<forall>e \<in> set new. role e = ''system'' \<and> action e = ''skill_init'' \<and> category e = ''system'')"
        using a b c by (intro exI [of _ "skill_init_event skill prompt newId ts # new"] conjI)
      from exn rest show ?thesis by (rule conjI)
    qed
  qed
qed


text \<open>
  Claim C10: after \<open>clear\<close> the log holds one \<open>skill_init\<close> system event for each
  configured skill whose prompt loads (in the order of the configuration, and
  nothing else), the topic index is empty, \<open>sessionStartTime\<close> is \<open>null\<close>,
  \<open>sessionActive\<close> is false, and the timer that the manager held is cancelled:
  \<open>sessionTimer\<close> is \<open>null\<close> and its handle is no longer armed.
\<close>

theorem clear_restores_baseline:
  assumes "clear getSkillPrompt availableModes rt sm = (rt', sm')"
  shows "map content (sessionMemory sm')
           = map (\<lambda>skill. ''Skill prompt loaded: '' @ skill)
               (filter (\<lambda>skill. case getSkillPrompt skill of Loaded prompt \<Rightarrow> prompt \<noteq> []
                                 | LoadThrows \<Rightarrow> False)
                  (case availableModes of Some l \<Rightarrow> l | None \<Rightarrow> default_skills))
       \<and> (\<forall>e \<in> set (sessionMemory sm').
             role e = ''system'' \<and> action e = ''skill_init'' \<and> category e = ''system'')
       \<and> topicTags sm' = []
       \<and> sessionStartTime sm' = None
       \<and> sessionActive sm' = False
       \<and> sessionTimer sm' = None
       \<and> (\<forall>h. sessionTimer sm = Some h \<longrightarrow> h \<notin> set (pendingTimers rt'))"
proof -
  let ?sm1 = "sm\<lparr>sessionMemory := [], topicTags := [], sessionStartTime := None, sessionActive := False\<rparr>"
  let ?rt1 = "case sessionTimer sm of Some h \<Rightarrow> clearTimeout h rt | None \<Rightarrow> rt"
  let ?sm2 = "case sessionTimer sm of Some h \<Rightarrow> ?sm1\<lparr>sessionTimer := None\<rparr> | None \<Rightarrow> ?sm1"
  have run: "init_skills getSkillPrompt (case availableModes of Some l \<Rightarrow> l | None \<Rightarrow> default_skills) ?rt1 ?sm2 = (rt', sm')"
    using assms by (simp add: clear_def initializeWithSkillPrompts_def Let_def split: option.splits)
  note eff = init_skills_effect [OF run]
  have mem0: "sessionMemory ?sm2 = []" and tg: "topicTags ?sm2 = []"
    and st: "sessionStartTime ?sm2 = None" and ac: "sessionActive ?sm2 = False"
    and tm: "sessionTimer ?sm2 = None"
    by (simp_all split: option.splits)
  have pt: "\<forall>h. sessionTimer sm = Some h \<longrightarrow> h \<notin> set (pendingTimers ?rt1)"
    by (simp add: clearTimeout_def)
  from eff have ex: "\<exists>new. sessionMemory sm' = sessionMemory ?sm2 @ new
        \<and> map content new = map (\<lambda>skill. ''Skill prompt loaded: '' @ skill)
                (filter (\<lambda>skill. case getSkillPrompt skill of Loaded prompt \<Rightarrow> prompt \<noteq> [] | LoadThrows \<Rightarrow> False)
                   (case availableModes of Some l \<Rightarrow> l | None \<Rightarrow> default_skills))
        \<and> (\<forall>e \<in> set new. role e = ''system'' \<and> action e = ''skill_init'' \<and> category e = ''system'')"
    by (rule conjunct1)
  then obtain new where n1: "sessionMemory sm' = sessionMemory ?sm2 @ new"
    and n2: "map content new = map (\<lambda>skill. ''Skill prompt loaded: '' @ skill)
                (filter (\<lambda>skill. case getSkillPrompt skill of Loaded prompt \<Rightarrow> prompt \<noteq> [] | LoadThrows \<Rightarrow> False)
                   (case availableModes of Some l \<Rightarrow> l | None \<Rightarrow> default_skills))"
    and n3: "\<forall>e \<in> set new. role e = ''system'' \<and> action e = ''skill_init'' \<and> category e = ''system''"
    by (elim exE conjE)
  have new: "sessionMemory sm' = new" unfolding n1 mem0 by simp
  from eff have rest: "topicTags sm' = topicTags ?sm2 \<and> sessionStartTime sm' = sessionStartTime ?sm2
     \<and> sessionActive sm' = sessionActive ?sm2 \<and> sessionTimer sm' = sessionTimer ?sm2
     \<and> pendingTimers rt' = pendingTimers ?rt1"
    by (rule conjunct2)
  have c1: "map content (sessionMemory sm')
           = map (\<lambda>skill. ''Skill prompt loaded: '' @ skill)
               (filter (\<lambda>skill. case getSkillPrompt skill of Loaded prompt \<Rightarrow> prompt \<noteq> []
                                 | LoadThrows \<Rightarrow> False)
                  (case availableModes of Some l \<Rightarrow> l | None \<Rightarrow> default_skills))"
    unfolding new by (rule n2)
  have c2: "\<forall>e \<in> set (sessionMemory sm').
             role e = ''system'' \<and> action e = ''skill_init'' \<and> category e = ''system''"
    unfolding new by (rule n3)
  have c3: "topicTags sm' = []" using rest tg by (elim conjE) (rule trans)
  have c4: "sessionStartTime sm' = None" using rest st by (elim conjE) (rule trans)
  have c5: "sessionActive sm' = False" using rest ac by (elim conjE) (rule trans)
  have c6: "sessionTimer sm' = None" using rest tm by (elim conjE) (rule trans)
  have c7: "\<forall>h. sessionTimer sm = Some h \<longrightarrow> h \<notin> set (pendingTimers rt')"
  proof -
    from rest have "pendingTimers rt' = pendingTimers ?rt1" by (elim conjE)
    then show ?thesis using pt by (rule ssubst)
  qed
  from c1 c2 c3 c4 c5 c6 c7 show ?thesis by (intro conjI)
qed

text \<open>
  Claim C10 at a store with an armed timer and a loader that throws for one
  skill and returns nothing for another.
\<close>

theorem clear_restores_baseline_witness:
  "map content (sessionMemory (snd (clear ex_loader None (ex_runtime 5)
       (ex_manager [ex_event 1 ''user'' ''voice_input'' ''interaction'' ''q1'']
                   [(''redis'', [ex_occurrence 1])]))))
     = [''Skill prompt loaded: system-design'']
   \<and> topicTags (snd (clear ex_loader None (ex_runtime 5)
       (ex_manager [ex_event 1 ''user'' ''voice_input'' ''interaction'' ''q1'']
                   [(''redis'', [ex_occurrence 1])]))) = []
   \<and> sessionTimer (ex_manager [ex_event 1 ''user'' ''voice_input'' ''interaction'' ''q1'']
                   [(''redis'', [ex_occurrence 1])]) = Some 7
   \<and> 7 \<in> set (pendingTimers (ex_runtime 5))
   \<and> 7 \<notin> set (pendingTimers (fst (clear ex_loader None (ex_runtime 5)
       (ex_manager [ex_event 1 ''user'' ''voice_input'' ''interaction'' ''q1'']
                   [(''redis'', [ex_occurrence 1])]))))"
  using clear_restores_baseline [OF surjective_pairing, of ex_loader None "ex_runtime 5"
      "ex_manager [ex_event 1 ''user'' ''voice_input'' ''interaction'' ''q1'']
                   [(''redis'', [ex_occurrence 1])]"]
  by (simp add: ex_loader_def default_skills_def ex_manager_def ex_runtime_def)

section \<open>Properties of the follow-up context\<close>

lemma render_pairs_unroll:
  "render_pairs i ps ctx = ctx @ concat (map (\<lambda>(j, p). render_pair j p) (zip [i..<i + length ps] ps))"
proof (induction ps arbitrary: i ctx)
  case Nil
  then show ?case by simp
next
  case (Cons p ps)
  have "[i..<i + length (p # ps)] = i # [Suc i..<Suc i + length ps]"
    by (subst upt_rec) simp
  then show ?case using Cons.IH [of "Suc i" "ctx @ render_pair i p"] by simp
qed

lemma slice_last:
  "0 < n \<Longrightarrow> slice_from (- n) xs = drop (length xs - nat n) xs"
  by (simp add: slice_from_def nat_diff_distrib')

text \<open>The event that the loop sees first, given the question it still holds.\<close>

lemma pair_loop_windows:
  assumes "\<forall>e \<in> set evs. relevant_event e"
  shows "pair_loop evs acc cq qs
         = acc
           @ (case evs of [] \<Rightarrow> []
              | e # _ \<Rightarrow> if \<not> is_question e \<and> truthy cq
                         then [\<lparr>question = the cq, answer = content e, source = qs\<rparr>] else [])
           @ spec_follow_up_pairs evs"
  using assms
proof (induction evs arbitrary: acc cq qs)
  case Nil
  then show ?case by (simp add: spec_follow_up_pairs_def)
next
  case (Cons e evs)
  have rel: "\<forall>e \<in> set evs. relevant_event e" and re: "relevant_event e" using Cons.prems by simp_all
  note ih = Cons.IH [OF rel]
  have win: "spec_follow_up_pairs (e # evs)
      = (case evs of [] \<Rightarrow> []
         | a # _ \<Rightarrow> if is_question e \<and> question_text e \<noteq> [] \<and> \<not> is_question a \<and> role a = ''model''
                    then [\<lparr>question = question_text e, answer = content a, source = Some (question_source e)\<rparr>]
                    else [])
        @ spec_follow_up_pairs evs"
    by (cases evs) (simp_all add: spec_follow_up_pairs_def)
  have model: "\<And>a. a \<in> set evs \<Longrightarrow> \<not> is_question a \<Longrightarrow> role a = ''model''"
    using rel by (auto simp: relevant_event_def is_question_def)
  show ?case
  proof (cases "is_question e")
    case True
    then have step: "pair_loop (e # evs) acc cq qs
        = pair_loop evs acc (Some (question_text e)) (Some (question_source e))"
      by (auto simp: is_question_def question_text_def question_source_def)
    show ?thesis unfolding step ih win using True model
      by (cases evs) auto
  next
    case False
    then have m: "role e = ''model''" "action e \<noteq> ''ocr_capture''" "role e \<noteq> ''user''"
      using re by (auto simp: relevant_event_def is_question_def)
    show ?thesis
    proof (cases "truthy cq")
      case True
      then have step: "pair_loop (e # evs) acc cq qs
          = pair_loop evs (acc @ [\<lparr>question = the cq, answer = content e, source = qs\<rparr>]) None None"
        using m by simp
      show ?thesis unfolding step ih win using False True by (cases evs) auto
    next
      case nt: False
      then have step: "pair_loop (e # evs) acc cq qs = pair_loop evs acc cq qs"
        using m by simp
      show ?thesis unfolding step ih win using False nt by (cases evs) auto
    qed
  qed
qed

lemma pair_loop_spec:
  "pair_loop (filter relevant_event mem) [] None None = spec_follow_up_pairs (filter relevant_event mem)"
proof -
  have "\<forall>e \<in> set (filter relevant_event mem). relevant_event e" by simp
  from pair_loop_windows [OF this, of "[]" None None] show ?thesis
    by (simp split: list.splits)
qed

text \<open>
  Claim C7, as stated: every question is paired with the model event that
  follows it. It fails for a question with an empty text: the loop pairs a
  model event only when \<open>currentQuestion\<close> is truthy, so a user event with empty
  content followed by an answer gives no pair and the context is empty.
\<close>

theorem followUp_empty_question_counterexample:
  "getFollowUpContext
     (ex_manager [ex_event 1 ''user'' ''voice_input'' ''interaction'' [],
                  ex_event 2 ''model'' ''model_response'' ''ai'' ''an answer''] []) 3 = []"
  by (simp add: getFollowUpContext_def relevant_event_def ex_manager_def ex_event_def)


text \<open>
  Claim C7, amended: among the question and answer events of the log, the pairs
  are the questions with a non-empty text (a user event, or an \<open>ocr_capture\<close>
  event without its prefix) that a model event directly follows, so a question
  followed by another question is discarded; with no pair the result is the
  empty string; for \<open>maxPairs \<ge> 1\<close> the result is the header, then the last
  \<open>maxPairs\<close> pairs numbered from 1, each with at most the first 1500
  characters of the question and the first 2000 characters of the answer, then
  the footer.
\<close>

theorem followUp_context:
  "(let pairs = spec_follow_up_pairs (filter relevant_event (sessionMemory sm));
        recent = drop (length pairs - nat maxPairs) pairs
    in pair_loop (filter relevant_event (sessionMemory sm)) [] None None = pairs
       \<and> (pairs = [] \<longrightarrow> getFollowUpContext sm maxPairs = [])
       \<and> (0 < maxPairs \<and> pairs \<noteq> [] \<longrightarrow>
            length recent = min (nat maxPairs) (length pairs)
            \<and> getFollowUpContext sm maxPairs
                = context_header
                  @ concat (map (\<lambda>(i, p). render_pair i p) (zip [0..<length recent] recent))
                  @ context_footer))
   \<and> render_pair i p
       = [CHR 0x0A] @ ''--- Turn '' @ show_nat (i + 1) @ '' ---'' @ [CHR 0x0A]
         @ (if source p = Some ''screen'' then ''SCREEN CONTENT'' else ''USER MESSAGE'')
         @ '':'' @ [CHR 0x0A] @ take 1500 (question p) @ [CHR 0x0A, CHR 0x0A]
         @ ''YOUR PREVIOUS ANSWER:'' @ [CHR 0x0A] @ take 2000 (answer p) @ [CHR 0x0A]
   \<and> length (take 1500 (question p)) \<le> 1500 \<and> length (take 2000 (answer p)) \<le> 2000"
  (is "?A \<and> ?B \<and> ?C")
proof -
  let ?rel = "filter relevant_event (sessionMemory sm)"
  let ?pairs = "spec_follow_up_pairs ?rel"
  let ?recent = "drop (length ?pairs - nat maxPairs) ?pairs"
  have loop: "pair_loop ?rel [] None None = ?pairs" by (rule pair_loop_spec)
  have none: "?pairs = [] \<longrightarrow> getFollowUpContext sm maxPairs = []"
    by (simp add: getFollowUpContext_def Let_def loop)
  have some: "0 < maxPairs \<and> ?pairs \<noteq> [] \<longrightarrow>
            length ?recent = min (nat maxPairs) (length ?pairs)
            \<and> getFollowUpContext sm maxPairs
                = context_header
                  @ concat (map (\<lambda>(i, p). render_pair i p) (zip [0..<length ?recent] ?recent))
                  @ context_footer"
  proof
    assume h: "0 < maxPairs \<and> ?pairs \<noteq> []"
    then have ne: "?rel \<noteq> []" by (auto simp: spec_follow_up_pairs_def)
    have sl: "slice_from (- maxPairs) ?pairs = ?recent" using h by (simp add: slice_last)
    have len: "length ?recent = min (nat maxPairs) (length ?pairs)" using h by auto
    have "getFollowUpContext sm maxPairs = render_pairs 0 ?recent context_header @ context_footer"
      using h ne by (simp add: getFollowUpContext_def Let_def loop sl)
    also have "\<dots> = context_header
                  @ concat (map (\<lambda>(i, p). render_pair i p) (zip [0..<length ?recent] ?recent))
                  @ context_footer"
      by (simp add: render_pairs_unroll)
    finally show "length ?recent = min (nat maxPairs) (length ?pairs)
            \<and> getFollowUpContext sm maxPairs
                = context_header
                  @ concat (map (\<lambda>(i, p). render_pair i p) (zip [0..<length ?recent] ?recent))
                  @ context_footer"
      using len by simp
  qed
  have rp: "render_pair i p
       = [CHR 0x0A] @ ''--- Turn '' @ show_nat (i + 1) @ '' ---'' @ [CHR 0x0A]
         @ (if source p = Some ''screen'' then ''SCREEN CONTENT'' else ''USER MESSAGE'')
         @ '':'' @ [CHR 0x0A] @ take 1500 (question p) @ [CHR 0x0A, CHR 0x0A]
         @ ''YOUR PREVIOUS ANSWER:'' @ [CHR 0x0A] @ take 2000 (answer p) @ [CHR 0x0A]"
    by (simp add: render_pair_def)
  have b1: "length (take 1500 (question p)) \<le> 1500" by simp
  have b2: "length (take 2000 (answer p)) \<le> 2000" by simp
  from loop none some have a: ?A unfolding Let_def by (intro conjI)
  from a rp b1 b2 show ?thesis by (intro conjI)
qed


text \<open>
  The amended claim C7 at a log of five answered questions and one unanswered
  one, with \<open>maxPairs = 3\<close>: the last three pairs are rendered.
\<close>

theorem followUp_context_witness:
  "(0::int) < 3
   \<and> getFollowUpContext
       (ex_manager [ex_event 1 ''user'' ''voice_input'' ''interaction'' ''q1'',
                    ex_event 2 ''model'' ''model_response'' ''ai'' ''a1'',
                    ex_event 3 ''user'' ''chat_input'' ''interaction'' ''q2'',
                    ex_event 4 ''model'' ''model_response'' ''ai'' ''a2'',
                    ex_event 5 ''system'' ''ocr_capture'' ''capture'' ''Screenshot captured: q3'',
                    ex_event 6 ''model'' ''model_response'' ''ai'' ''a3'',
                    ex_event 7 ''user'' ''voice_input'' ''interaction'' ''unanswered'',
                    ex_event 8 ''user'' ''voice_input'' ''interaction'' ''q4'',
                    ex_event 9 ''model'' ''model_response'' ''ai'' ''a4'',
                    ex_event 10 ''user'' ''voice_input'' ''interaction'' ''q5'',
                    ex_event 11 ''system'' ''skill_change'' ''system'' ''mode'',
                    ex_event 12 ''model'' ''model_response'' ''ai'' ''a5''] []) 3
     = context_header
       @ render_pair 0 \<lparr>question = ''q3'', answer = ''a3'', source = Some ''screen''\<rparr>
       @ render_pair 1 \<lparr>question = ''q4'', answer = ''a4'', source = Some ''voice/chat''\<rparr>
       @ render_pair 2 \<lparr>question = ''q5'', answer = ''a5'', source = Some ''voice/chat''\<rparr>
       @ context_footer"
proof -
  let ?sm = "ex_manager [ex_event 1 ''user'' ''voice_input'' ''interaction'' ''q1'',
                    ex_event 2 ''model'' ''model_response'' ''ai'' ''a1'',
                    ex_event 3 ''user'' ''chat_input'' ''interaction'' ''q2'',
                    ex_event 4 ''model'' ''model_response'' ''ai'' ''a2'',
                    ex_event 5 ''system'' ''ocr_capture'' ''capture'' ''Screenshot captured: q3'',
                    ex_event 6 ''model'' ''model_response'' ''ai'' ''a3'',
                    ex_event 7 ''user'' ''voice_input'' ''interaction'' ''unanswered'',
                    ex_event 8 ''user'' ''voice_input'' ''interaction'' ''q4'',
                    ex_event 9 ''model'' ''model_response'' ''ai'' ''a4'',
                    ex_event 10 ''user'' ''voice_input'' ''interaction'' ''q5'',
                    ex_event 11 ''system'' ''skill_change'' ''system'' ''mode'',
                    ex_event 12 ''model'' ''model_response'' ''ai'' ''a5''] []"
  have ev: "getFollowUpContext ?sm 3
     = context_header
       @ render_pair 0 \<lparr>question = ''q3'', answer = ''a3'', source = Some ''screen''\<rparr>
       @ render_pair 1 \<lparr>question = ''q4'', answer = ''a4'', source = Some ''voice/chat''\<rparr>
       @ render_pair 2 \<lparr>question = ''q5'', answer = ''a5'', source = Some ''voice/chat''\<rparr>
       @ context_footer"
    by code_simp
  from followUp_context [of ?sm 3] ev show ?thesis by simp
qed

section \<open>Properties of the fallback chain and of the retries\<close>

lemma create_effect:
  "requests (snd (create be m rt)) = requests rt @ [m]"
  "sleeps (snd (create be m rt)) = sleeps rt"
  "fst (create be m rt) = be (requests rt) m"
  by (simp_all add: create_def)

lemma delay_effect:
  "requests (delay ms rt) = requests rt" "sleeps (delay ms rt) = sleeps rt @ [ms]"
  by (simp_all add: delay_def)

lemma vision_loop_once:
  "client svc \<Longrightarrow> vision_loop be svc ms rt = (res, rt') \<Longrightarrow>
     \<exists>n \<le> length ms.
        requests rt' = requests rt @ take n ms \<and> sleeps rt' = sleeps rt
        \<and> (\<forall>i < n - 1. \<exists>msg. be (requests rt @ take i ms) (ms ! i) = Throws msg)
        \<and> (case res of
              None \<Rightarrow> n = length ms \<and> (\<forall>i < n. \<exists>msg. be (requests rt @ take i ms) (ms ! i) = Throws msg)
            | Some (text, m) \<Rightarrow>
                0 < n \<and> m = ms ! (n - 1) \<and> be (requests rt @ take (n - 1) ms) m = Content text)"
proof (induction be svc ms rt arbitrary: res rt' rule: vision_loop.induct)
  case (1 be svc rt)
  then show ?case by auto
next
  case (2 be svc modelName rest rt)
  note cl = \<open>client svc\<close>
  show ?case
  proof (cases "be (requests rt) modelName")
    case (Content payload)
    with "2.prems" have r: "res = Some (payload, modelName)" "rt' = snd (create be modelName rt)"
      by (auto simp: create_effect)
    show ?thesis
      by (rule exI [of _ 1]) (simp add: r create_effect Content)
  next
    case (Throws msg)
    let ?rt1 = "snd (create be modelName rt)"
    have run: "vision_loop be svc rest ?rt1 = (res, rt')"
      using "2.prems" Throws by (simp add: create_effect)
    have ncl: "\<not> \<not> client svc" using cl by simp
    have thr0: "fst (create be modelName rt) = Throws msg" using Throws by (simp add: create_effect)
    from "2.IH"(2) [OF ncl thr0 cl run]
    obtain n where n: "n \<le> length rest"
      "requests rt' = requests ?rt1 @ take n rest" "sleeps rt' = sleeps ?rt1"
      "\<forall>i < n - 1. \<exists>msg. be (requests ?rt1 @ take i rest) (rest ! i) = Throws msg"
      "case res of
              None \<Rightarrow> n = length rest \<and> (\<forall>i < n. \<exists>msg. be (requests ?rt1 @ take i rest) (rest ! i) = Throws msg)
            | Some (text, m) \<Rightarrow>
                0 < n \<and> m = rest ! (n - 1) \<and> be (requests ?rt1 @ take (n - 1) rest) m = Content text"
      by blast
    have thr: "\<And>i. i < Suc n - 1 \<Longrightarrow> \<exists>msg. be (requests rt @ take i (modelName # rest)) ((modelName # rest) ! i) = Throws msg"
    proof -
      fix i assume "i < Suc n - 1"
      then show "\<exists>msg. be (requests rt @ take i (modelName # rest)) ((modelName # rest) ! i) = Throws msg"
        using n(4) Throws by (cases i) (auto simp: create_effect)
    qed
    have res: "case res of
              None \<Rightarrow> Suc n = length (modelName # rest)
                     \<and> (\<forall>i < Suc n. \<exists>msg. be (requests rt @ take i (modelName # rest)) ((modelName # rest) ! i) = Throws msg)
            | Some (text, m) \<Rightarrow>
                0 < Suc n \<and> m = (modelName # rest) ! (Suc n - 1)
                \<and> be (requests rt @ take (Suc n - 1) (modelName # rest)) m = Content text"
    proof (cases res)
      case None
      with n(5) have a: "n = length rest" "\<forall>i < n. \<exists>msg. be (requests ?rt1 @ take i rest) (rest ! i) = Throws msg"
        by simp_all
      have "\<forall>i < Suc n. \<exists>msg. be (requests rt @ take i (modelName # rest)) ((modelName # rest) ! i) = Throws msg"
      proof (intro allI impI)
        fix i assume "i < Suc n"
        then show "\<exists>msg. be (requests rt @ take i (modelName # rest)) ((modelName # rest) ! i) = Throws msg"
          using a(2) Throws by (cases i) (auto simp: create_effect)
      qed
      with a(1) None show ?thesis by simp
    next
      case (Some tm)
      obtain payload m where tm: "tm = (payload, m)" by (cases tm)
      with n(5) Some have a: "0 < n" "m = rest ! (n - 1)" "be (requests ?rt1 @ take (n - 1) rest) m = Content payload"
        by auto
      then obtain k where k: "n = Suc k" by (cases n) auto
      show ?thesis using a Some tm k by (simp add: create_effect)
    qed
    show ?thesis
      apply (rule exI [of _ "Suc n"])
      using n(1,2,3) thr res by (simp add: create_effect)
  qed
qed

lemma request_loop_attempts:
  "request_loop be m maxR a le rt = (res, rt') \<Longrightarrow>
     \<exists>k. a + k \<le> max a (Suc maxR)
        \<and> requests rt' = requests rt @ replicate k m
        \<and> sleeps rt' = sleeps rt @ map (\<lambda>j. 1000 * j) [a..<a + k - 1]
        \<and> (\<forall>i < k - 1. isl (attempt_text (be (requests rt @ replicate i m) m)))
        \<and> (case res of
              Inr payload \<Rightarrow> 0 < k \<and> attempt_text (be (requests rt @ replicate (k - 1) m) m) = Inr payload
            | Inl e \<Rightarrow> a + k = max a (Suc maxR)
                       \<and> (\<forall>i < k. isl (attempt_text (be (requests rt @ replicate i m) m))))"
proof (induction be m maxR a le rt arbitrary: res rt' rule: request_loop.induct)
  case (1 be m maxR a le rt)
  show ?case
  proof (cases "a \<le> maxR")
    case False
    with "1.prems" have "res = Inl le" "rt' = rt" by (simp_all add: request_loop.simps)
    with False show ?thesis by (intro exI [of _ 0]) (simp add: max_def)
  next
    case True
    let ?rt1 = "snd (create be m rt)"
    show ?thesis
    proof (cases "attempt_text (be (requests rt) m)")
      case (Inr payload)
      with "1.prems" True have r: "res = Inr payload" "rt' = ?rt1"
        by (simp_all add: request_loop.simps [of be m maxR a] create_effect)
      show ?thesis using True Inr by (intro exI [of _ 1]) (simp add: r create_effect max_def)
    next
      case (Inl e)
      let ?rt2 = "if a < maxR then delay (1000 * a) ?rt1 else ?rt1"
      have run: "request_loop be m maxR (a + 1) e ?rt2 = (res, rt')"
        using "1.prems" True Inl by (simp add: request_loop.simps [of be m maxR a] create_effect)
      have a1: "attempt_text (fst (create be m rt)) = Inl e" using Inl by (simp add: create_effect)
      from "1.IH" [OF True a1 run]
      obtain k where k: "a + 1 + k \<le> max (a + 1) (Suc maxR)"
        "requests rt' = requests ?rt2 @ replicate k m"
        "sleeps rt' = sleeps ?rt2 @ map (\<lambda>j. 1000 * j) [a + 1..<a + 1 + k - 1]"
        "\<forall>i < k - 1. isl (attempt_text (be (requests ?rt2 @ replicate i m) m))"
        "case res of
              Inr payload \<Rightarrow> 0 < k \<and> attempt_text (be (requests ?rt2 @ replicate (k - 1) m) m) = Inr payload
            | Inl e \<Rightarrow> a + 1 + k = max (a + 1) (Suc maxR)
                       \<and> (\<forall>i < k. isl (attempt_text (be (requests ?rt2 @ replicate i m) m)))"
        by blast
      have rq2: "requests ?rt2 = requests rt @ [m]" by (simp add: create_effect delay_effect)
      have rep: "\<And>i. (requests rt @ [m]) @ replicate i m = requests rt @ replicate (Suc i) m"
        by (simp add: replicate_app_Cons_same)
      have c1: "a + Suc k \<le> max a (Suc maxR)" using k(1) True by (simp add: max_def)
      have c2: "requests rt' = requests rt @ replicate (Suc k) m"
        unfolding k(2) rq2 by (rule rep)
      have kpos: "a < maxR \<Longrightarrow> 0 < k"
        using k(5) k(1) by (cases res) (auto simp: max_def)
      have kzero: "\<not> a < maxR \<Longrightarrow> k = 0" using k(1) True by (simp add: max_def)
      have c3: "sleeps rt' = sleeps rt @ map (\<lambda>j. 1000 * j) [a..<a + Suc k - 1]"
      proof (cases "a < maxR")
        case lt: True
        then obtain k' where k': "k = Suc k'" using kpos by (cases k) auto
        have "[a..<a + Suc k - 1] = a # [a + 1..<a + 1 + k - 1]"
          unfolding k' by (subst upt_rec) simp
        then show ?thesis unfolding k(3) using lt by (simp add: create_effect delay_effect)
      next
        case ge: False
        then show ?thesis unfolding k(3) using kzero by (simp add: create_effect)
      qed
      have c4: "\<forall>i < Suc k - 1. isl (attempt_text (be (requests rt @ replicate i m) m))"
      proof (intro allI impI)
        fix i assume i: "i < Suc k - 1"
        show "isl (attempt_text (be (requests rt @ replicate i m) m))"
        proof (cases i)
          case 0
          then show ?thesis using Inl by simp
        next
          case (Suc j)
          with i have "j < k - 1" by simp
          with k(4) have "isl (attempt_text (be (requests ?rt2 @ replicate j m) m))" by simp
          then show ?thesis unfolding rq2 rep Suc .
        qed
      qed
      have c5: "case res of
              Inr payload \<Rightarrow> 0 < Suc k \<and> attempt_text (be (requests rt @ replicate (Suc k - 1) m) m) = Inr payload
            | Inl e \<Rightarrow> a + Suc k = max a (Suc maxR)
                       \<and> (\<forall>i < Suc k. isl (attempt_text (be (requests rt @ replicate i m) m)))"
      proof (cases res)
        case (Inr payload)
        with k(5) have "0 < k" "attempt_text (be (requests ?rt2 @ replicate (k - 1) m) m) = Inr payload"
          by simp_all
        then have "attempt_text (be (requests rt @ replicate k m) m) = Inr payload"
          unfolding rq2 rep by simp
        with Inr show ?thesis by simp
      next
        case (Inl e')
        with k(5) have a: "a + 1 + k = max (a + 1) (Suc maxR)"
          "\<forall>i < k. isl (attempt_text (be (requests ?rt2 @ replicate i m) m))" by simp_all
        have "\<forall>i < Suc k. isl (attempt_text (be (requests rt @ replicate i m) m))"
        proof (intro allI impI)
          fix i assume i: "i < Suc k"
          show "isl (attempt_text (be (requests rt @ replicate i m) m))"
          proof (cases i)
            case 0
            then show ?thesis using \<open>attempt_text (be (requests rt) m) = Inl e\<close> by simp
          next
            case (Suc j)
            with i have "j < k" by simp
            with a(2) have "isl (attempt_text (be (requests ?rt2 @ replicate j m) m))" by simp
            then show ?thesis unfolding rq2 rep Suc .
          qed
        qed
        moreover have "a + Suc k = max a (Suc maxR)" using a(1) True by (simp add: max_def)
        ultimately show ?thesis using Inl by simp
      qed
      from c1 c2 c3 c4 c5 show ?thesis by (intro exI [of _ "Suc k"] conjI)
    qed
  qed
qed

lemma attempt_text_payload: "attempt_text out = Inr payload \<Longrightarrow> payload \<noteq> []"
  by (auto simp: attempt_text_def split: outcome.splits if_splits)

lemma attempt_text_isl: "isl (attempt_text out) = (\<forall>t. out = Content t \<longrightarrow> t = [])"
  by (auto simp: attempt_text_def split: outcome.splits)

lemma attempt_text_Inr: "attempt_text out = Inr payload \<Longrightarrow> out = Content payload"
  by (auto simp: attempt_text_def split: outcome.splits if_splits)

lemma attempt_text_Inl:
  "attempt_text out = Inl e \<Longrightarrow>
     e = (case out of Throws msg \<Rightarrow> Error msg | Content t \<Rightarrow> Error ''Empty response from Groq'')"
  by (auto simp: attempt_text_def split: outcome.splits if_splits)

text \<open>The error that the loop throws in the end is the one of its last attempt.\<close>

lemma request_loop_last_error:
  "request_loop be m maxR a le rt = (Inl e, rt') \<Longrightarrow>
     (if a \<le> maxR then attempt_text (be (requests rt @ replicate (maxR - a) m) m) = Inl e
      else e = le)"
proof (induction be m maxR a le rt arbitrary: rt' rule: request_loop.induct)
  case (1 be m maxR a le rt)
  show ?case
  proof (cases "a \<le> maxR")
    case False
    with "1.prems" show ?thesis by (simp add: request_loop.simps)
  next
    case True
    show ?thesis
    proof (cases "attempt_text (be (requests rt) m)")
      case (Inr payload)
      with "1.prems" True show ?thesis
        by (simp add: request_loop.simps [of be m maxR a] create_effect)
    next
      case (Inl e0)
      let ?rt2 = "if a < maxR then delay (1000 * a) (snd (create be m rt)) else snd (create be m rt)"
      have run: "request_loop be m maxR (a + 1) e0 ?rt2 = (Inl e, rt')"
        using "1.prems" True Inl by (simp add: request_loop.simps [of be m maxR a] create_effect)
      have a1: "attempt_text (fst (create be m rt)) = Inl e0" using Inl by (simp add: create_effect)
      note ih = "1.IH" [OF True a1 run]
      have rq2: "requests ?rt2 = requests rt @ [m]" by (simp add: create_effect delay_effect)
      show ?thesis
      proof (cases "a + 1 \<le> maxR")
        case lt: True
        then obtain d where d: "maxR - a = Suc d" "maxR - (a + 1) = d" by (cases "maxR - a") auto
        from ih lt have "attempt_text (be (requests ?rt2 @ replicate (maxR - (a + 1)) m) m) = Inl e"
          by simp
        then have "attempt_text (be (requests rt @ replicate (Suc d) m) m) = Inl e"
          unfolding rq2 d by (simp add: replicate_app_Cons_same)
        then show ?thesis using True d by simp
      next
        case ge: False
        with ih have "e = e0" by simp
        moreover from ge True have "maxR - a = 0" by simp
        ultimately show ?thesis using True Inl by simp
      qed
    qed
  qed
qed

text \<open>
  Claim C1, as stated: every candidate model gets up to \<open>maxRetries\<close> attempts
  before the next candidate is tried, so a chain whose first model always fails
  and whose second model answers on its second attempt succeeds with the second
  model. It fails on the code: the loop over the candidate models calls each
  model once, so the second model's one failed call moves the chain on to the
  third model, every model is called exactly once, no delay is awaited, and the
  entry point answers with the canned fallback.
\<close>

theorem fallback_chain_counterexample:
  "fst (vision_loop ex_backend (ex_service True) visionModels (ex_runtime 0)) = None
   \<and> requests (snd (vision_loop ex_backend (ex_service True) visionModels (ex_runtime 0))) = visionModels
   \<and> sleeps (snd (vision_loop ex_backend (ex_service True) visionModels (ex_runtime 0))) = []
   \<and> map_of (metadata_res (fst (processScreenCaptureWithStructuredResponse ex_backend None ''dsa''
                False (ex_service True) (ex_runtime 0)))) ''usedFallback'' = Some (MBool True)"
  by code_simp

text \<open>
  Claim C1, amended. The candidate list (the vision models) is tried in order,
  each candidate once and without delay: a call that throws moves on to the
  next candidate, the first call that does not throw ends the loop with its
  content and its model, and the loop fails when every candidate has thrown.
  The retries belong to \<open>executeRequest\<close>, which has one model: it makes
  between one and \<open>maxRetries\<close> (default 3) calls to that model, awaits
  \<open>1000 * attempt\<close> after every failed attempt but the last possible one, and
  returns the first non-empty content; an attempt fails when the call throws
  or its content is empty, and after \<open>maxRetries\<close> failed attempts the error
  of the last attempt is thrown, which is the error of the call or, for an
  empty content, \<open>Empty response from Groq\<close>. Without a client it throws at
  once and sends nothing.
\<close>

theorem fallback_and_retry:
  "(client svc \<and> vision_loop be svc candidates rt = (vres, vrt) \<longrightarrow>
      (\<exists>n \<le> length candidates.
          requests vrt = requests rt @ take n candidates \<and> sleeps vrt = sleeps rt
          \<and> (\<forall>i < n - 1. \<exists>msg. be (requests rt @ take i candidates) (candidates ! i) = Throws msg)
          \<and> (case vres of
                None \<Rightarrow> n = length candidates
                        \<and> (\<forall>i < n. \<exists>msg. be (requests rt @ take i candidates) (candidates ! i) = Throws msg)
              | Some (payload, m) \<Rightarrow>
                  0 < n \<and> m = candidates ! (n - 1)
                  \<and> be (requests rt @ take (n - 1) candidates) m = Content payload)))
   \<and> (client svc \<and> executeRequest be maxRetriesCfg svc rt = (res, rt') \<longrightarrow>
      (\<exists>k. 1 \<le> k \<and> k \<le> (case maxRetriesCfg of None \<Rightarrow> 3 | Some c \<Rightarrow> if c = 0 then 3 else c)
          \<and> requests rt' = requests rt @ replicate k (model svc)
          \<and> sleeps rt' = sleeps rt @ map (\<lambda>attempt. 1000 * attempt) [1..<k]
          \<and> (\<forall>i < k - 1. \<forall>t. be (requests rt @ replicate i (model svc)) (model svc) = Content t
                              \<longrightarrow> t = [])
          \<and> (case res of
                Inr payload \<Rightarrow>
                  payload \<noteq> []
                  \<and> be (requests rt @ replicate (k - 1) (model svc)) (model svc) = Content payload
              | Inl e \<Rightarrow>
                  k = (case maxRetriesCfg of None \<Rightarrow> 3 | Some c \<Rightarrow> if c = 0 then 3 else c)
                  \<and> (\<forall>i < k. \<forall>t. be (requests rt @ replicate i (model svc)) (model svc) = Content t
                                  \<longrightarrow> t = [])
                  \<and> e = (case be (requests rt @ replicate (k - 1) (model svc)) (model svc) of
                           Throws msg \<Rightarrow> Error msg
                         | Content t \<Rightarrow> Error ''Empty response from Groq''))))
   \<and> (\<not> client svc \<longrightarrow>
        executeRequest be maxRetriesCfg svc rt = (Inl (Error ''Groq client not initialized''), rt))"
  (is "?V \<and> ?R \<and> ?N")
proof (intro conjI)
  show ?V
  proof (intro impI)
    assume "client svc \<and> vision_loop be svc candidates rt = (vres, vrt)"
    then have "client svc" and "vision_loop be svc candidates rt = (vres, vrt)"
      by (rule conjunct1, rule conjunct2)
    then show "\<exists>n \<le> length candidates.
          requests vrt = requests rt @ take n candidates \<and> sleeps vrt = sleeps rt
          \<and> (\<forall>i < n - 1. \<exists>msg. be (requests rt @ take i candidates) (candidates ! i) = Throws msg)
          \<and> (case vres of
                None \<Rightarrow> n = length candidates
                        \<and> (\<forall>i < n. \<exists>msg. be (requests rt @ take i candidates) (candidates ! i) = Throws msg)
              | Some (payload, m) \<Rightarrow>
                  0 < n \<and> m = candidates ! (n - 1)
                  \<and> be (requests rt @ take (n - 1) candidates) m = Content payload)"
      by (rule vision_loop_once)
  qed
next
  show ?N by (simp add: executeRequest_def)
next
  let ?maxR = "case maxRetriesCfg of None \<Rightarrow> 3 | Some c \<Rightarrow> if c = 0 then 3 else c"
  let ?m = "model svc"
  show ?R
  proof (intro impI)
    assume h: "client svc \<and> executeRequest be maxRetriesCfg svc rt = (res, rt')"
    have pos: "1 \<le> ?maxR" by (simp split: option.splits)
    from h have c: "client svc" and e: "executeRequest be maxRetriesCfg svc rt = (res, rt')"
      by (rule conjunct1, rule conjunct2)
    have "executeRequest be maxRetriesCfg svc rt = request_loop be ?m ?maxR 1 Undefined rt"
      unfolding executeRequest_def Let_def using c by (simp only: not_True_eq_False if_False)
    with e have run: "request_loop be ?m ?maxR 1 Undefined rt = (res, rt')" by simp
    from request_loop_attempts [OF run]
    obtain k where k: "1 + k \<le> max 1 (Suc ?maxR)"
      "requests rt' = requests rt @ replicate k ?m"
      "sleeps rt' = sleeps rt @ map (\<lambda>j. 1000 * j) [1..<1 + k - 1]"
      "\<forall>i < k - 1. isl (attempt_text (be (requests rt @ replicate i ?m) ?m))"
      "case res of
              Inr payload \<Rightarrow> 0 < k \<and> attempt_text (be (requests rt @ replicate (k - 1) ?m) ?m) = Inr payload
            | Inl e \<Rightarrow> 1 + k = max 1 (Suc ?maxR)
                       \<and> (\<forall>i < k. isl (attempt_text (be (requests rt @ replicate i ?m) ?m)))"
      by blast
    have le: "k \<le> ?maxR" using k(1) by (simp add: max_def)
    have ge: "1 \<le> k" using k(5) pos by (cases res) (auto simp: max_def)
    have sl: "sleeps rt' = sleeps rt @ map (\<lambda>attempt. 1000 * attempt) [1..<k]" using k(3) by simp
    have fl: "\<forall>i < k - 1. \<forall>t. be (requests rt @ replicate i ?m) ?m = Content t \<longrightarrow> t = []"
      using k(4) unfolding attempt_text_isl .
    have cs: "case res of
                Inr payload \<Rightarrow>
                  payload \<noteq> [] \<and> be (requests rt @ replicate (k - 1) ?m) ?m = Content payload
              | Inl e \<Rightarrow>
                  k = ?maxR
                  \<and> (\<forall>i < k. \<forall>t. be (requests rt @ replicate i ?m) ?m = Content t \<longrightarrow> t = [])
                  \<and> e = (case be (requests rt @ replicate (k - 1) ?m) ?m of
                           Throws msg \<Rightarrow> Error msg
                         | Content t \<Rightarrow> Error ''Empty response from Groq'')"
    proof (cases res)
      case (Inr payload)
      with k(5) have a: "attempt_text (be (requests rt @ replicate (k - 1) ?m) ?m) = Inr payload" by simp
      from attempt_text_payload [OF a] attempt_text_Inr [OF a] Inr show ?thesis by simp
    next
      case (Inl e)
      with k(5) have km: "1 + k = max 1 (Suc ?maxR)"
        and af: "\<forall>i < k. isl (attempt_text (be (requests rt @ replicate i ?m) ?m))" by simp_all
      from km have keq: "k = ?maxR" by (simp add: max_def)
      from run Inl have "request_loop be ?m ?maxR 1 Undefined rt = (Inl e, rt')" by simp
      from request_loop_last_error [OF this] pos
      have "attempt_text (be (requests rt @ replicate (?maxR - 1) ?m) ?m) = Inl e" by simp
      then have "attempt_text (be (requests rt @ replicate (k - 1) ?m) ?m) = Inl e"
        unfolding keq .
      from attempt_text_Inl [OF this]
      have err: "e = (case be (requests rt @ replicate (k - 1) ?m) ?m of
                           Throws msg \<Rightarrow> Error msg
                         | Content t \<Rightarrow> Error ''Empty response from Groq'')" .
      have af': "\<forall>i < k. \<forall>t. be (requests rt @ replicate i ?m) ?m = Content t \<longrightarrow> t = []"
        using af unfolding attempt_text_isl .
      from keq af' err Inl show ?thesis by simp
    qed
    from ge le k(2) sl fl cs
    show "\<exists>k. 1 \<le> k \<and> k \<le> ?maxR
          \<and> requests rt' = requests rt @ replicate k ?m
          \<and> sleeps rt' = sleeps rt @ map (\<lambda>attempt. 1000 * attempt) [1..<k]
          \<and> (\<forall>i < k - 1. \<forall>t. be (requests rt @ replicate i ?m) ?m = Content t \<longrightarrow> t = [])
          \<and> (case res of
                Inr payload \<Rightarrow>
                  payload \<noteq> [] \<and> be (requests rt @ replicate (k - 1) ?m) ?m = Content payload
              | Inl e \<Rightarrow>
                  k = ?maxR
                  \<and> (\<forall>i < k. \<forall>t. be (requests rt @ replicate i ?m) ?m = Content t \<longrightarrow> t = [])
                  \<and> e = (case be (requests rt @ replicate (k - 1) ?m) ?m of
                           Throws msg \<Rightarrow> Error msg
                         | Content t \<Rightarrow> Error ''Empty response from Groq''))"
      by (intro exI [of _ k] conjI)
  qed
qed

text \<open>
  The amended claim C1 at a backend whose second model fails once and then
  answers and whose first model always fails with \<open>503\<close>: \<open>executeRequest\<close> on
  the second model returns the answer of the second attempt after one delay of
  1000; on the first model it makes three attempts with delays of 1000 and
  2000 and throws the error \<open>503\<close> of the last one; the candidate loop over
  the same backend fails.
\<close>

theorem fallback_and_retry_witness:
  "client (ex_service True)
   \<and> fst (executeRequest ex_backend None (ex_service True) (ex_runtime 0)) = Inr ''def f(x): return x''
   \<and> requests (snd (executeRequest ex_backend None (ex_service True) (ex_runtime 0)))
       = [''llama-3.2-11b-vision-preview'', ''llama-3.2-11b-vision-preview'']
   \<and> sleeps (snd (executeRequest ex_backend None (ex_service True) (ex_runtime 0))) = [1000]
   \<and> client ((ex_service True)\<lparr>model := ''meta-llama/llama-4-scout-17b-16e-instruct''\<rparr>)
   \<and> fst (executeRequest ex_backend None ((ex_service True)\<lparr>model := ''meta-llama/llama-4-scout-17b-16e-instruct''\<rparr>) (ex_runtime 0)) = Inl (Error ''503'')
   \<and> requests (snd (executeRequest ex_backend None ((ex_service True)\<lparr>model := ''meta-llama/llama-4-scout-17b-16e-instruct''\<rparr>) (ex_runtime 0)))
       = replicate 3 ''meta-llama/llama-4-scout-17b-16e-instruct''
   \<and> sleeps (snd (executeRequest ex_backend None ((ex_service True)\<lparr>model := ''meta-llama/llama-4-scout-17b-16e-instruct''\<rparr>) (ex_runtime 0))) = [1000, 2000]
   \<and> fst (vision_loop ex_backend (ex_service True) visionModels (ex_runtime 0)) = None"
proof -
  have ev: "fst (executeRequest ex_backend None (ex_service True) (ex_runtime 0)) = Inr ''def f(x): return x''
   \<and> requests (snd (executeRequest ex_backend None (ex_service True) (ex_runtime 0)))
       = [''llama-3.2-11b-vision-preview'', ''llama-3.2-11b-vision-preview'']
   \<and> sleeps (snd (executeRequest ex_backend None (ex_service True) (ex_runtime 0))) = [1000]
   \<and> fst (executeRequest ex_backend None ((ex_service True)\<lparr>model := ''meta-llama/llama-4-scout-17b-16e-instruct''\<rparr>) (ex_runtime 0)) = Inl (Error ''503'')
   \<and> requests (snd (executeRequest ex_backend None ((ex_service True)\<lparr>model := ''meta-llama/llama-4-scout-17b-16e-instruct''\<rparr>) (ex_runtime 0)))
       = replicate 3 ''meta-llama/llama-4-scout-17b-16e-instruct''
   \<and> sleeps (snd (executeRequest ex_backend None ((ex_service True)\<lparr>model := ''meta-llama/llama-4-scout-17b-16e-instruct''\<rparr>) (ex_runtime 0))) = [1000, 2000]
   \<and> fst (vision_loop ex_backend (ex_service True) visionModels (ex_runtime 0)) = None"
    by code_simp
  have c: "client (ex_service True)" "client ((ex_service True)\<lparr>model := ''meta-llama/llama-4-scout-17b-16e-instruct''\<rparr>)" by (simp_all add: ex_service_def)
  from fallback_and_retry [of "ex_service True" ex_backend visionModels "ex_runtime 0"
      "fst (vision_loop ex_backend (ex_service True) visionModels (ex_runtime 0))"
      "snd (vision_loop ex_backend (ex_service True) visionModels (ex_runtime 0))"
      None
      "fst (executeRequest ex_backend None (ex_service True) (ex_runtime 0))"
      "snd (executeRequest ex_backend None (ex_service True) (ex_runtime 0))"]
    fallback_and_retry [of "(ex_service True)\<lparr>model := ''meta-llama/llama-4-scout-17b-16e-instruct''\<rparr>" ex_backend visionModels "ex_runtime 0"
      "fst (vision_loop ex_backend ((ex_service True)\<lparr>model := ''meta-llama/llama-4-scout-17b-16e-instruct''\<rparr>) visionModels (ex_runtime 0))"
      "snd (vision_loop ex_backend ((ex_service True)\<lparr>model := ''meta-llama/llama-4-scout-17b-16e-instruct''\<rparr>) visionModels (ex_runtime 0))"
      None
      "fst (executeRequest ex_backend None ((ex_service True)\<lparr>model := ''meta-llama/llama-4-scout-17b-16e-instruct''\<rparr>) (ex_runtime 0))"
      "snd (executeRequest ex_backend None ((ex_service True)\<lparr>model := ''meta-llama/llama-4-scout-17b-16e-instruct''\<rparr>) (ex_runtime 0))"]
    c ev
  show ?thesis by simp
qed

section \<open>Properties of the uninitialised service\<close>

text \<open>
  Claim C8: when the client is not initialised, each of the three entry points
  returns at once the canned response, which is written out here: the text is
  one of three fixed hints chosen by the skill (\<open>system-design\<close>,
  \<open>technical-screening\<close>, any other) and does not depend on the input, both
  parts are empty, the detected type follows the skill, the extracted text is
  the input (\<open>Image analysis requested\<close> for a screen capture), and the metadata
  hold processing time 0, model \<open>fallback\<close>, the skill, \<open>usedFallback = true\<close>
  and \<open>isStructuredResponse = false\<close>. The service is unchanged and the only
  effect is one reading of the clock: no request is sent and no delay is
  awaited.
\<close>

theorem uninitialized_fallback:
  "\<not> isInitialized svc \<Longrightarrow>
     (let canned = (\<lambda>extracted.
            \<lparr>response =
               (if skill = ''system-design''
                then ''Consider the scalability implications here. Think about read vs write patterns, caching layers, and whether you need strong consistency or eventual consistency.''
                else if skill = ''technical-screening''
                then ''Think about the time complexity of your approach. Is there a way to optimize with a different data structure like a hash map or a heap?''
                else ''Let me think about this problem. Consider the pattern '' @ [CHR 0x97] @ '' is it a sliding window, two pointers, or dynamic programming approach?''),
             partA = Some [], partB = Some [],
             detectedType = Some (if skill = ''system-design'' then ''design'' else ''coding''),
             extractedText = Some extracted,
             metadata_res =
               [(''processingTime'', MNum 0), (''model'', MStr ''fallback''),
                (''skill'', MStr skill), (''usedFallback'', MBool True),
                (''isStructuredResponse'', MBool False)]\<rparr>);
          rt1 = rt\<lparr>clockReads := Suc (clockReads rt)\<rparr>
      in processTextWithSkill be cfg utterance skill complexity followUp svc rt
           = (canned utterance, svc, rt1)
         \<and> processTranscriptionWithIntelligentResponse be cfg utterance skill followUp svc rt
           = (canned utterance, svc, rt1)
         \<and> processScreenCaptureWithStructuredResponse be cfg skill followUp svc rt
           = (canned ''Image analysis requested'', svc, rt1)
         \<and> requests rt1 = requests rt
         \<and> sleeps rt1 = sleeps rt)"
  by (simp add: processTextWithSkill_def processTranscriptionWithIntelligentResponse_def
        processScreenCaptureWithStructuredResponse_def generateFallbackResponse_def date_now_def
        em_dash_def Let_def split: prod.splits)

text \<open>
  Claim C8 at a service without client: nothing is sent, the hints for two
  skills differ, and the detected type follows the skill.
\<close>

theorem uninitialized_fallback_witness:
  "\<not> isInitialized (ex_service False)
   \<and> requests (snd (snd (processTextWithSkill ex_backend None ''what is a heap'' ''dsa'' ''long'' False
         (ex_service False) (ex_runtime 0)))) = []
   \<and> take 12 (response (fst (processTextWithSkill ex_backend None ''what is a heap'' ''dsa'' ''long''
         False (ex_service False) (ex_runtime 0)))) = ''Let me think''
   \<and> take 12 (response (fst (processTextWithSkill ex_backend None ''what is a heap''
         ''technical-screening'' ''long'' False (ex_service False) (ex_runtime 0)))) = ''Think about ''
   \<and> take 12 (response (fst (processScreenCaptureWithStructuredResponse ex_backend None
         ''system-design'' False (ex_service False) (ex_runtime 0)))) = ''Consider the''
   \<and> map_of (metadata_res (fst (processScreenCaptureWithStructuredResponse ex_backend None
         ''system-design'' False (ex_service False) (ex_runtime 0)))) ''usedFallback'' = Some (MBool True)
   \<and> detectedType (fst (processScreenCaptureWithStructuredResponse ex_backend None
         ''system-design'' False (ex_service False) (ex_runtime 0))) = Some ''design''
   \<and> extractedText (fst (processScreenCaptureWithStructuredResponse ex_backend None
         ''system-design'' False (ex_service False) (ex_runtime 0))) = Some ''Image analysis requested''"
proof -
  have i: "\<not> isInitialized (ex_service False)" by (simp add: ex_service_def)
  from uninitialized_fallback [OF i, where be = ex_backend and cfg = None
         and utterance = "''what is a heap''" and skill = "''dsa''" and complexity = "''long''"
         and followUp = False and rt = "ex_runtime 0"]
       uninitialized_fallback [OF i, where be = ex_backend and cfg = None
         and utterance = "''what is a heap''" and skill = "''technical-screening''" and complexity = "''long''"
         and followUp = False and rt = "ex_runtime 0"]
       uninitialized_fallback [OF i, where be = ex_backend and cfg = None
         and utterance = "''what is a heap''" and skill = "''system-design''" and complexity = "''long''"
         and followUp = False and rt = "ex_runtime 0"]
       i
  show ?thesis by (simp add: ex_runtime_def Let_def)
qed

section \<open>Properties of the question classifier\<close>

lemma count_hits_filter:
  "count_hits patterns t score = score + length (filter (\<lambda>p. regex_test False p t) patterns)"
  by (induction patterns t score rule: count_hits.induct) auto

text \<open>
  Claim C5: for a non-empty text the score of a family is the number of its
  patterns that match the lower-cased text, so a pattern counts once however
  often it matches and a family scores at most 7, plus 2 for the coding family
  when the skill is \<open>dsa\<close> or \<open>technical-screening\<close> and plus 2 for the design
  family when the skill is \<open>system-design\<close>; the answer is \<open>coding\<close> exactly
  when the coding score is greater than the design score, so \<open>design\<close> wins
  every tie. For the empty text the answer is \<open>design\<close> when the skill is
  \<open>system-design\<close> and \<open>coding\<close> otherwise.
\<close>

theorem detectQuestionType_rule:
  "(let codingHits = length (filter (\<lambda>p. regex_test False p (toLowerCase extracted)) codingPatterns);
        designHits = length (filter (\<lambda>p. regex_test False p (toLowerCase extracted)) designPatterns);
        codingScore = codingHits + (if skill = ''dsa'' \<or> skill = ''technical-screening'' then 2 else 0);
        designScore = designHits + (if skill = ''system-design'' then 2 else 0)
    in codingHits \<le> 7 \<and> designHits \<le> 7
       \<and> detectQuestionType extracted skill
           = (if extracted = [] then (if skill = ''system-design'' then ''design'' else ''coding'')
              else if codingScore > designScore then ''coding'' else ''design''))"
proof -
  have c: "length (filter (\<lambda>p. regex_test False p (toLowerCase extracted)) codingPatterns) \<le> 7"
    using length_filter_le [of _ codingPatterns] by (simp add: codingPatterns_def del: length_filter_le)
  have d: "length (filter (\<lambda>p. regex_test False p (toLowerCase extracted)) designPatterns) \<le> 7"
    using length_filter_le [of _ designPatterns] by (simp add: designPatterns_def del: length_filter_le)
  have r: "detectQuestionType extracted skill
           = (if extracted = [] then (if skill = ''system-design'' then ''design'' else ''coding'')
              else if length (filter (\<lambda>p. regex_test False p (toLowerCase extracted)) codingPatterns)
                        + (if skill = ''dsa'' \<or> skill = ''technical-screening'' then 2 else 0)
                      > length (filter (\<lambda>p. regex_test False p (toLowerCase extracted)) designPatterns)
                        + (if skill = ''system-design'' then 2 else 0)
                   then ''coding'' else ''design'')"
    by (simp add: detectQuestionType_def count_hits_filter Let_def)
  from c d r show ?thesis unfolding Let_def by (intro conjI)
qed

text \<open>
  Claim C5 at literal texts: two coding hits against the design bias are a tie
  and give \<open>design\<close>; three coding hits overcome the bias; a word that matches
  three times is one hit; one hit each without bias is a tie; the empty text
  follows the skill.
\<close>

theorem detectQuestionType_rule_witness:
  "detectQuestionType ''return x == y'' ''system-design'' = ''design''
   \<and> detectQuestionType ''def f(x): return x == y # LeetCode'' ''system-design'' = ''coding''
   \<and> length (filter (\<lambda>p. regex_test False p (toLowerCase ''BFS, bfs and bfs again'')) codingPatterns) = 1
   \<and> detectQuestionType ''load balancer in front of a for (;;) loop'' ''other'' = ''design''
   \<and> detectQuestionType [] ''dsa'' = ''coding''
   \<and> detectQuestionType [] ''system-design'' = ''design''"
proof -
  note rule = detectQuestionType_rule [of "''return x == y''" "''system-design''"]
  have ev: "detectQuestionType ''return x == y'' ''system-design'' = ''design''
   \<and> detectQuestionType ''def f(x): return x == y # LeetCode'' ''system-design'' = ''coding''
   \<and> length (filter (\<lambda>p. regex_test False p (toLowerCase ''BFS, bfs and bfs again'')) codingPatterns) = 1
   \<and> detectQuestionType ''load balancer in front of a for (;;) loop'' ''other'' = ''design''
   \<and> detectQuestionType [] ''dsa'' = ''coding''
   \<and> detectQuestionType [] ''system-design'' = ''design''"
    by code_simp
  show ?thesis by (insert rule, rule ev)
qed

section \<open>The response splitter on the documented header formats\<close>

text \<open>
  Claim C6 on the code. The separator class after the label holds \<open>\s\<close> and so also
  matches line breaks. On a header line that ends right after the label it
  takes the line break, then \<open>[^\r\n]*\<close> takes the first line of the body as if
  it were the rest of the header, and \<open>[\r\n]+\<close> takes the break after it. So
  for \<open>## Part A\<close>, \<open>Do X\<close>, \<open>## Part B\<close>, \<open>Code Y\<close> on four lines the first
  part is empty and not \<open>Do X\<close>. With a title after the labels the same
  response is split as described, and a response without labels becomes the second
  part as a whole.
\<close>

theorem split_response_plain_headers:
  "split_response (''## Part A'' @ [CHR 0x0A] @ ''Do X'' @ [CHR 0x0A] @ ''## Part B'' @ [CHR 0x0A]
                   @ ''Code Y'')
     = ([], ''Code Y'')
   \<and> split_response (''## Part A - Say'' @ [CHR 0x0A] @ ''Do X'' @ [CHR 0x0A] @ ''## Part B: Code''
                     @ [CHR 0x0A] @ ''Code Y'')
     = (''Do X'', ''Code Y'')
   \<and> split_response (''Do X, then code Y'') = ([], ''Do X, then code Y'')"
  by code_simp

text \<open>
  The same happens on header lines that end in the dash: the separator class
  takes the dash and the line break after it.
\<close>

lemma split_response_dash_headers:
  "split_response (''## Part A '' @ em_dash @ [CHR 0x0A] @ ''Do X'' @ [CHR 0x0A]
                   @ ''## Part B '' @ em_dash @ [CHR 0x0A] @ ''Code Y'')
     = ([], ''Code Y'')"
  by code_simp

end
